theory Spec2Isabelle
  imports Complex_Main
begin

section \<open>Hierarchical clustering: the engine, the linkage types, the checkers and the distance map\<close>

subsection \<open>Numbers and panics\<close>

text \<open>
  A \<^verbatim>\<open>float64\<close> is modelled as an exact real or NaN. Rounding, overflow, infinities
  and the sign of zero are not modelled: every finite value is the real it denotes.
  NaN is kept because the program produces one (\<^verbatim>\<open>0.0 / 0.0\<close> in
  \<^verbatim>\<open>avgLinkage.LWParams\<close>) and because every comparison with NaN is false, which the
  best-pair search depends on.
\<close>

datatype float64 = Fin real | NaN

fun fadd :: "float64 \<Rightarrow> float64 \<Rightarrow> float64" where
  "fadd (Fin a) (Fin b) = Fin (a + b)"
| "fadd _ _ = NaN"

fun fsub :: "float64 \<Rightarrow> float64 \<Rightarrow> float64" where
  "fsub (Fin a) (Fin b) = Fin (a - b)"
| "fsub _ _ = NaN"

fun fmul :: "float64 \<Rightarrow> float64 \<Rightarrow> float64" where
  "fmul (Fin a) (Fin b) = Fin (a * b)"
| "fmul _ _ = NaN"

text \<open>
  Division: \<^verbatim>\<open>0.0 / 0.0\<close> is NaN. A non-zero value divided by zero is an infinity in
  IEEE 754, which this model has no value for; the program never divides so (its two
  divisions are \<^verbatim>\<open>avgDist / totalPairs\<close> behind the guard \<^verbatim>\<open>totalPairs <= 0.0\<close>, and
  \<^verbatim>\<open>ni / (ni + nj)\<close> on two counts, whose sum is zero only when both are).
\<close>

fun fdiv :: "float64 \<Rightarrow> float64 \<Rightarrow> float64" where
  "fdiv (Fin a) (Fin b) = (if b = 0 then NaN else Fin (a / b))"
| "fdiv _ _ = NaN"

fun fneg :: "float64 \<Rightarrow> float64" where
  "fneg (Fin a) = Fin (- a)"
| "fneg NaN = NaN"

fun flt :: "float64 \<Rightarrow> float64 \<Rightarrow> bool" where
  "flt (Fin a) (Fin b) = (a < b)"
| "flt _ _ = False"

fun fle :: "float64 \<Rightarrow> float64 \<Rightarrow> bool" where
  "fle (Fin a) (Fin b) = (a \<le> b)"
| "fle _ _ = False"

fun fgt :: "float64 \<Rightarrow> float64 \<Rightarrow> bool" where
  "fgt (Fin a) (Fin b) = (a > b)"
| "fgt _ _ = False"

fun feq :: "float64 \<Rightarrow> float64 \<Rightarrow> bool" where
  "feq (Fin a) (Fin b) = (a = b)"
| "feq _ _ = False"

definition MaxFloat64 :: real where
  "MaxFloat64 = (2 - 1 / 2 ^ 52) * 2 ^ 1023"

text \<open>
  Cluster indices and counts are Go \<^verbatim>\<open>int\<close>s; they are modelled as unbounded integers (a
  count is the length of a slice and the arithmetic on indices adds or subtracts one, so
  nothing wraps). The run-time panics of the Go code that the model can reach:
\<close>

datatype panic = IndexOutOfRange | NilMapAssign

text \<open>Reading a slice at an index: Go panics out of range.\<close>

definition idx :: "'a list \<Rightarrow> int \<Rightarrow> panic + 'a" where
  "idx xs i = (if 0 \<le> i \<and> i < int (length xs) then Inr (xs ! nat i) else Inl IndexOutOfRange)"

subsection \<open>The interfaces\<close>

text \<open>
  \<^verbatim>\<open>ClusterSet\<close>, \<^verbatim>\<open>LinkageType\<close> and \<^verbatim>\<open>Checker\<close> are Go interfaces. An
  implementation is a table of methods over its own state type \<open>'cs\<close> or \<open>'l\<close>; methods
  that mutate their receiver return the new state, methods that can panic return a sum.
  The callback enumerations \<^verbatim>\<open>EachCluster\<close> and \<^verbatim>\<open>EachItem\<close> return the sequence of
  values they pass to the callback.
\<close>

record ('cs, 'item) ClusterSet =
  Count :: "'cs \<Rightarrow> int"
  EachCluster :: "'cs \<Rightarrow> int \<Rightarrow> int list"
  EachItem :: "'cs \<Rightarrow> int \<Rightarrow> panic + 'item list"
  Distance :: "'cs \<Rightarrow> int \<Rightarrow> int \<Rightarrow> 'item \<Rightarrow> 'item \<Rightarrow> float64"
  Merge :: "'cs \<Rightarrow> int \<Rightarrow> int \<Rightarrow> panic + ('cs \<times> int \<times> int)"

record ('l, 'item) LinkageType =
  Reset :: "'l \<Rightarrow> 'l"
  Put :: "'l \<Rightarrow> 'item \<Rightarrow> 'item \<Rightarrow> float64 \<Rightarrow> panic + 'l"
  Get :: "'l \<Rightarrow> float64"
  LWParams :: "'l \<Rightarrow> float64 list"

type_synonym ('cs, 'item) Checker =
  "('cs, 'item) ClusterSet \<Rightarrow> 'cs \<Rightarrow> int \<Rightarrow> int \<Rightarrow> float64 \<Rightarrow> bool"

subsection \<open>The distance map cluster set (distancemap.go)\<close>

record 'item distMapClusterSet =
  data :: "'item \<rightharpoonup> ('item \<rightharpoonup> float64)"
  clusters :: "'item list list"

text \<open>
  \<^verbatim>\<open>NewDistanceMapClusterSet\<close> ranges over the map and its nested maps; Go leaves the
  order of a map range unspecified, so the order is a parameter: the keys of the map, each
  with the keys of its nested map, as the range visits them.
\<close>

definition addUnique :: "'item list \<times> 'item list list \<Rightarrow> 'item \<Rightarrow> 'item list \<times> 'item list list" where
  "addUnique st k = (case st of (allItems, cl) \<Rightarrow>
     if k \<in> set allItems then (allItems, cl) else (k # allItems, cl @ [[k]]))"

definition NewDistanceMapClusterSet ::
  "('item \<rightharpoonup> ('item \<rightharpoonup> float64)) \<Rightarrow> ('item \<times> 'item list) list \<Rightarrow> 'item distMapClusterSet" where
  "NewDistanceMapClusterSet dm order =
     \<lparr> data = dm,
       clusters = snd (foldl (\<lambda>st (k1, subs). foldl addUnique (addUnique st k1) subs) ([], []) order) \<rparr>"

definition distMap_EachCluster :: "'item distMapClusterSet \<Rightarrow> int \<Rightarrow> int list" where
  "distMap_EachCluster d start =
     (if start + 1 \<ge> int (length (clusters d)) then []
      else [start + 1 .. int (length (clusters d)) - 1])"

definition distMap_EachItem :: "'item distMapClusterSet \<Rightarrow> int \<Rightarrow> panic + 'item list" where
  "distMap_EachItem d cluster = idx (clusters d) cluster"

definition distMap_Distance ::
  "'item distMapClusterSet \<Rightarrow> int \<Rightarrow> int \<Rightarrow> 'item \<Rightarrow> 'item \<Rightarrow> float64" where
  "distMap_Distance d c1 c2 item1 item2 =
     (case (case data d item1 of None \<Rightarrow> None | Some x \<Rightarrow> x item2) of
        Some y \<Rightarrow> y
      | None \<Rightarrow>
         (case (case data d item2 of None \<Rightarrow> None | Some x \<Rightarrow> x item1) of
            Some y \<Rightarrow> y
          | None \<Rightarrow> Fin 1))"

text \<open>The entry of the map for the ordered pair \<open>(a, b)\<close>, when there is one.\<close>

definition stored :: "'item distMapClusterSet \<Rightarrow> 'item \<Rightarrow> 'item \<Rightarrow> float64 option" where
  "stored d a b = (case data d a of None \<Rightarrow> None | Some x \<Rightarrow> x b)"

definition distMap_Count :: "'item distMapClusterSet \<Rightarrow> int" where
  "distMap_Count d = int (length (clusters d))"

text \<open>
  \<^verbatim>\<open>Merge\<close>: order the two indices, swap cluster \<open>j\<close> with the last one, append it to
  cluster \<open>i\<close> and cut the last slot off. The slice accesses panic unless
  \<open>0 \<le> i\<close> and \<open>j \<le> x\<close> after the ordering.
\<close>

definition distMap_Merge ::
  "'item distMapClusterSet \<Rightarrow> int \<Rightarrow> int \<Rightarrow> panic + ('item distMapClusterSet \<times> int \<times> int)" where
  "distMap_Merge d i0 j0 =
     (let i = (if j0 < i0 then j0 else i0);
          j = (if j0 < i0 then i0 else j0);
          x = int (length (clusters d)) - 1
      in if i < 0 \<or> x < j then Inl IndexOutOfRange
         else
           (let cl1 = (if j < x
                       then (clusters d)[nat x := clusters d ! nat j, nat j := clusters d ! nat x]
                       else clusters d);
                j1 = (if j < x then x else j);
                cl2 = cl1[nat i := cl1 ! nat i @ cl1 ! nat j1]
            in Inr (d\<lparr>clusters := take (nat j1) cl2\<rparr>, i, x)))"

definition DistanceMapClusterSet :: "('item distMapClusterSet, 'item) ClusterSet" where
  "DistanceMapClusterSet =
     \<lparr> Count = distMap_Count, EachCluster = distMap_EachCluster, EachItem = distMap_EachItem,
       Distance = distMap_Distance, Merge = distMap_Merge \<rparr>"

subsection \<open>The checkers\<close>

definition Threshold :: "float64 \<Rightarrow> ('cs, 'item) Checker" where
  "Threshold t = (\<lambda>C cs i j nextScore. fle nextScore t)"

definition MaxClusters :: "int \<Rightarrow> ('cs, 'item) Checker" where
  "MaxClusters t = (\<lambda>C cs i j nextScore. Count C cs > t)"

text \<open>\<^verbatim>\<open>TreeLog\<close> prints a line and returns the decision of the checker it wraps.\<close>

definition TreeLog :: "('cs, 'item) Checker \<Rightarrow> ('cs, 'item) Checker" where
  "TreeLog c = (\<lambda>C cs i j nextScore. c C cs i j nextScore)"

subsection \<open>The linkage types\<close>

record maxLinkage =
  maxDist :: float64

definition maxLinkage_Put :: "maxLinkage \<Rightarrow> 'item \<Rightarrow> 'item \<Rightarrow> float64 \<Rightarrow> panic + maxLinkage" where
  "maxLinkage_Put c a b dst =
     (if fgt dst (maxDist c) \<or> flt (maxDist c) (Fin 0) then Inr (c\<lparr>maxDist := dst\<rparr>) else Inr c)"

definition maxLinkage_methods :: "(maxLinkage, 'item) LinkageType" where
  "maxLinkage_methods =
     \<lparr> Reset = (\<lambda>c. c\<lparr>maxDist := Fin (- 1)\<rparr>),
       Put = maxLinkage_Put,
       Get = maxDist,
       LWParams = (\<lambda>c. [Fin (1 / 2), Fin (1 / 2), Fin 0, Fin (1 / 2)]) \<rparr>"

record minLinkage =
  minDist :: float64

definition minLinkage_Put :: "minLinkage \<Rightarrow> 'item \<Rightarrow> 'item \<Rightarrow> float64 \<Rightarrow> panic + minLinkage" where
  "minLinkage_Put c a b dst =
     (if flt dst (minDist c) \<or> flt (minDist c) (Fin 0) then Inr (c\<lparr>minDist := dst\<rparr>) else Inr c)"

definition minLinkage_methods :: "(minLinkage, 'item) LinkageType" where
  "minLinkage_methods =
     \<lparr> Reset = (\<lambda>c. c\<lparr>minDist := Fin (- 1)\<rparr>),
       Put = minLinkage_Put,
       Get = minDist,
       LWParams = (\<lambda>c. [Fin (1 / 2), Fin (1 / 2), Fin 0, Fin (- (1 / 2))]) \<rparr>"

text \<open>
  \<^verbatim>\<open>avgLinkage\<close>: the two item sets are Go maps, \<open>None\<close> while nil. Writing to a nil
  map panics; its length is 0.
\<close>

record 'item avgLinkage =
  avgDist :: float64
  totalPairs :: float64
  isWeighted :: bool
  leftCounts :: "'item set option"
  rightCounts :: "'item set option"

definition avgLinkage_Reset :: "'item avgLinkage \<Rightarrow> 'item avgLinkage" where
  "avgLinkage_Reset c =
     (let c1 = c\<lparr>avgDist := Fin 0, totalPairs := Fin 0\<rparr>
      in if \<not> isWeighted c1 then c1\<lparr>leftCounts := Some {}, rightCounts := Some {}\<rparr> else c1)"

definition avgLinkage_Get :: "'item avgLinkage \<Rightarrow> float64" where
  "avgLinkage_Get c =
     (if fle (totalPairs c) (Fin 0) then Fin 0 else fdiv (avgDist c) (totalPairs c))"

definition avgLinkage_Put :: "'item avgLinkage \<Rightarrow> 'item \<Rightarrow> 'item \<Rightarrow> float64 \<Rightarrow> panic + 'item avgLinkage" where
  "avgLinkage_Put c a b dst =
     (let c1 = c\<lparr>avgDist := fadd (avgDist c) dst, totalPairs := fadd (totalPairs c) (Fin 1)\<rparr>
      in if \<not> isWeighted c1 then
           (case leftCounts c1 of
              None \<Rightarrow> Inl NilMapAssign
            | Some ls \<Rightarrow>
               (case rightCounts c1 of
                  None \<Rightarrow> Inl NilMapAssign
                | Some rs \<Rightarrow> Inr (c1\<lparr>leftCounts := Some (insert a ls), rightCounts := Some (insert b rs)\<rparr>)))
         else Inr c1)"

definition mapLen :: "'item set option \<Rightarrow> float64" where
  "mapLen m = (case m of None \<Rightarrow> Fin 0 | Some s \<Rightarrow> Fin (real (card s)))"

definition avgLinkage_LWParams :: "'item avgLinkage \<Rightarrow> float64 list" where
  "avgLinkage_LWParams c =
     (if isWeighted c then [Fin (1 / 2), Fin (1 / 2), Fin 0, Fin 0]
      else
        (let ni = mapLen (leftCounts c); nj = mapLen (rightCounts c)
         in [fdiv ni (fadd ni nj), fdiv nj (fadd ni nj), Fin 0, Fin 0]))"

definition avgLinkage_methods :: "('item avgLinkage, 'item) LinkageType" where
  "avgLinkage_methods =
     \<lparr> Reset = avgLinkage_Reset, Put = avgLinkage_Put, Get = avgLinkage_Get,
       LWParams = avgLinkage_LWParams \<rparr>"

text \<open>
  A value of the interface \<^verbatim>\<open>LinkageType\<close> is a method table (\<open>maxLinkage_methods\<close>,
  \<open>minLinkage_methods\<close>, \<open>avgLinkage_methods\<close>) with an accumulator. The four constructors
  return the accumulators \<^verbatim>\<open>&maxLinkage{}\<close>, \<^verbatim>\<open>&minLinkage{}\<close>, \<^verbatim>\<open>&avgLinkage{}\<close> and
  \<^verbatim>\<open>&avgLinkage{isWeighted: true}\<close>.
\<close>

definition CompleteLinkage :: maxLinkage where
  "CompleteLinkage = \<lparr> maxDist = Fin 0 \<rparr>"

definition SingleLinkage :: minLinkage where
  "SingleLinkage = \<lparr> minDist = Fin 0 \<rparr>"

definition AverageLinkage :: "'item avgLinkage" where
  "AverageLinkage =
     \<lparr> avgDist = Fin 0, totalPairs = Fin 0, isWeighted = False, leftCounts = None, rightCounts = None \<rparr>"

definition WeightedAverageLinkage :: "'item avgLinkage" where
  "WeightedAverageLinkage =
     \<lparr> avgDist = Fin 0, totalPairs = Fin 0, isWeighted = True, leftCounts = None, rightCounts = None \<rparr>"

text \<open>
  The life cycle of a linkage accumulator: \<^verbatim>\<open>Reset\<close>, a \<^verbatim>\<open>Put\<close> for each observation,
  \<^verbatim>\<open>Get\<close>. The result is the score and the accumulator the cycle leaves behind.
\<close>

fun putAll :: "('l, 'item) LinkageType \<Rightarrow> ('item \<times> 'item \<times> float64) list \<Rightarrow> 'l \<Rightarrow> panic + 'l" where
  "putAll L [] l = Inr l"
| "putAll L ((a, b, d) # ps) l =
     (case Put L l a b d of Inl e \<Rightarrow> Inl e | Inr l1 \<Rightarrow> putAll L ps l1)"

definition resetPutGet ::
  "('l, 'item) LinkageType \<Rightarrow> 'l \<Rightarrow> ('item \<times> 'item \<times> float64) list \<Rightarrow> panic + (float64 \<times> 'l)" where
  "resetPutGet L l ps =
     (case putAll L ps (Reset L l) of Inl e \<Rightarrow> Inl e | Inr l1 \<Rightarrow> Inr (Get L l1, l1))"

text \<open>What \<^verbatim>\<open>avgLinkage.Put\<close> accumulates over a sequence of observations: the sum of the
  distances and the number of pairs, each from a start value.\<close>

fun sumDists :: "float64 \<Rightarrow> ('item \<times> 'item \<times> float64) list \<Rightarrow> float64" where
  "sumDists s [] = s"
| "sumDists s ((a, b, d) # ps) = sumDists (fadd s d) ps"

fun countPairs :: "float64 \<Rightarrow> ('item \<times> 'item \<times> float64) list \<Rightarrow> float64" where
  "countPairs n [] = n"
| "countPairs n (p # ps) = countPairs (fadd n (Fin 1)) ps"

text \<open>A sequence of observations with finite distances, and the distances alone.\<close>

definition observed :: "('item \<times> 'item \<times> real) list \<Rightarrow> ('item \<times> 'item \<times> float64) list" where
  "observed ps = map (\<lambda>(a, b, d). (a, b, Fin d)) ps"

definition dists :: "('item \<times> 'item \<times> real) list \<Rightarrow> real list" where
  "dists ps = map (\<lambda>p. snd (snd p)) ps"

subsection \<open>The clustering engine (main.go)\<close>

text \<open>
  The state of an \<^verbatim>\<open>HClustering\<close>: the receivers behind its \<^verbatim>\<open>ClusterSet\<close> and
  \<^verbatim>\<open>LinkageType\<close> fields, the slice \<^verbatim>\<open>lwCache\<close> (nil is the empty list) and the map of
  maps \<^verbatim>\<open>distCache\<close> (\<open>None\<close> while nil). The method tables and the checker do not
  change during a run and are passed beside the state.
\<close>

type_synonym distCacheMap = "int \<rightharpoonup> (int \<rightharpoonup> float64)"

record ('cs, 'l) HClustering =
  clusterSet :: 'cs
  linkageType :: 'l
  lwCache :: "float64 list"
  distCache :: "distCacheMap option"

text \<open>Reading \<^verbatim>\<open>distCache[x][y]\<close>: a missing row or entry reads as the zero value.\<close>

definition cacheRead :: "distCacheMap option \<Rightarrow> int \<Rightarrow> int \<Rightarrow> float64" where
  "cacheRead c x y =
     (case c of
        None \<Rightarrow> Fin 0
      | Some m \<Rightarrow> (case m x of None \<Rightarrow> Fin 0 | Some row \<Rightarrow> (case row y of None \<Rightarrow> Fin 0 | Some v \<Rightarrow> v)))"

text \<open>Writing \<^verbatim>\<open>distCache[x][y] = v\<close>: the row must exist, or Go panics on the nil map.\<close>

definition cacheStore :: "distCacheMap option \<Rightarrow> int \<Rightarrow> int \<Rightarrow> float64 \<Rightarrow> panic + distCacheMap option" where
  "cacheStore c x y v =
     (case c of
        None \<Rightarrow> Inl NilMapAssign
      | Some m \<Rightarrow> (case m x of None \<Rightarrow> Inl NilMapAssign | Some row \<Rightarrow> Inr (Some (m(x \<mapsto> row(y \<mapsto> v))))))"

text \<open>
  \<^verbatim>\<open>defaultOptimizedClusterSet.EachItemDistance\<close>: the pairs handed to the callback.
  \<^verbatim>\<open>dist\<close> uses it whenever the cluster set does not implement the optional
  \<^verbatim>\<open>OptimizedClusterSet\<close>; the distance map does not, and a cluster set that does is documented
  to behave as this default.
\<close>

definition EachItemDistance ::
  "('cs, 'item) ClusterSet \<Rightarrow> 'cs \<Rightarrow> int \<Rightarrow> int \<Rightarrow> 'item \<Rightarrow> panic + ('item \<times> float64) list" where
  "EachItemDistance C cs c1 c2 item1 =
     (case EachItem C cs c2 of
        Inl e \<Rightarrow> Inl e
      | Inr bs \<Rightarrow> Inr (map (\<lambda>item2. (item2, Distance C cs c1 c2 item1 item2)) bs))"

text \<open>The two nested callbacks of \<^verbatim>\<open>dist\<close>, threading the linkage accumulator.\<close>

fun putEach :: "('l, 'item) LinkageType \<Rightarrow> 'item \<Rightarrow> ('item \<times> float64) list \<Rightarrow> 'l \<Rightarrow> panic + 'l" where
  "putEach L a [] l = Inr l"
| "putEach L a ((b, d) # bds) l =
     (case Put L l a b d of Inl e \<Rightarrow> Inl e | Inr l1 \<Rightarrow> putEach L a bds l1)"

fun eachItemPut ::
  "('cs, 'item) ClusterSet \<Rightarrow> ('l, 'item) LinkageType \<Rightarrow> 'cs \<Rightarrow> int \<Rightarrow> int \<Rightarrow> 'item list \<Rightarrow> 'l \<Rightarrow> panic + 'l" where
  "eachItemPut C L cs i j [] l = Inr l"
| "eachItemPut C L cs i j (a # as) l =
     (case EachItemDistance C cs i j a of
        Inl e \<Rightarrow> Inl e
      | Inr bds \<Rightarrow>
         (case putEach L a bds l of Inl e \<Rightarrow> Inl e | Inr l1 \<Rightarrow> eachItemPut C L cs i j as l1))"

text \<open>
  The linkage score of clusters \<open>i\<close> and \<open>j\<close> from the items, with no cache:
  \<^verbatim>\<open>Reset\<close>, a \<^verbatim>\<open>Put\<close> for every pair of items, \<^verbatim>\<open>Get\<close>.
\<close>

definition linkageScore ::
  "('cs, 'item) ClusterSet \<Rightarrow> ('l, 'item) LinkageType \<Rightarrow> 'cs \<Rightarrow> 'l \<Rightarrow> int \<Rightarrow> int \<Rightarrow> panic + (float64 \<times> 'l)" where
  "linkageScore C L cs l i j =
     (case EachItem C cs i of
        Inl e \<Rightarrow> Inl e
      | Inr as \<Rightarrow>
         (case eachItemPut C L cs i j as (Reset L l) of
            Inl e \<Rightarrow> Inl e
          | Inr l1 \<Rightarrow> Inr (Get L l1, l1)))"

text \<open>
  \<^verbatim>\<open>HClustering.dist\<close> (named \<open>dist_h\<close>: \<open>dist\<close> is the metric of HOL). With a cache
  the indices are ordered first, a cached score is returned, and a missing row is made
  before the score is computed and stored.
\<close>

definition dist_h ::
  "('cs, 'item) ClusterSet \<Rightarrow> ('l, 'item) LinkageType \<Rightarrow> ('cs, 'l) HClustering \<Rightarrow> int \<Rightarrow> int
     \<Rightarrow> panic + (float64 \<times> ('cs, 'l) HClustering)" where
  "dist_h C L h i0 j0 =
     (let i = (if distCache h \<noteq> None \<and> i0 > j0 then j0 else i0);
          j = (if distCache h \<noteq> None \<and> i0 > j0 then i0 else j0)
      in case (case distCache h of
                 None \<Rightarrow> None
               | Some m \<Rightarrow> (case m i of None \<Rightarrow> None | Some row \<Rightarrow> row j)) of
           Some s \<Rightarrow> Inr (s, h)
         | None \<Rightarrow>
            (let c1 = (case distCache h of
                         None \<Rightarrow> None
                       | Some m \<Rightarrow> (case m i of None \<Rightarrow> Some (m(i \<mapsto> Map.empty)) | Some row \<Rightarrow> Some m))
             in case linkageScore C L (clusterSet h) (linkageType h) i j of
                  Inl e \<Rightarrow> Inl e
                | Inr (s, l1) \<Rightarrow>
                   (if c1 \<noteq> None then
                      (case cacheStore c1 i j s of
                         Inl e \<Rightarrow> Inl e
                       | Inr c2 \<Rightarrow> Inr (s, h\<lparr>linkageType := l1, distCache := c2\<rparr>))
                    else Inr (s, h\<lparr>linkageType := l1, distCache := c1\<rparr>))))"

text \<open>The first loop of \<^verbatim>\<open>mergeAndUpdateAll\<close>: the scores of \<open>i\<close> and of \<open>j\<close> to every \<open>k\<close>.\<close>

fun snapshotDists ::
  "('cs, 'item) ClusterSet \<Rightarrow> ('l, 'item) LinkageType \<Rightarrow> int \<Rightarrow> int \<Rightarrow> int list \<Rightarrow> ('cs, 'l) HClustering
     \<Rightarrow> panic + (float64 list \<times> float64 list \<times> ('cs, 'l) HClustering)" where
  "snapshotDists C L i j [] h = Inr ([], [], h)"
| "snapshotDists C L i j (k # ks) h =
     (case dist_h C L h i k of
        Inl e \<Rightarrow> Inl e
      | Inr (dik, h1) \<Rightarrow>
         (case dist_h C L h1 j k of
            Inl e \<Rightarrow> Inl e
          | Inr (djk, h2) \<Rightarrow>
             (case snapshotDists C L i j ks h2 of
                Inl e \<Rightarrow> Inl e
              | Inr (diks, djks, h3) \<Rightarrow> Inr (dik # diks, djk # djks, h3))))"

text \<open>"move cached distances from nj into r"\<close>

fun moveCached :: "int \<Rightarrow> int \<Rightarrow> int list \<Rightarrow> distCacheMap option \<Rightarrow> panic + distCacheMap option" where
  "moveCached r nj [] c = Inr c"
| "moveCached r nj (k # ks) c =
     (if k = nj then moveCached r nj ks c
      else
        (let x1 = (if k > r then r else k); y1 = (if k > r then k else r);
             x2 = (if k > nj then nj else k); y2 = (if k > nj then k else nj)
         in case cacheStore c x1 y1 (cacheRead c x2 y2) of
              Inl e \<Rightarrow> Inl e
            | Inr c1 \<Rightarrow> moveCached r nj ks c1))"

text \<open>"now remove unused cache values"; \<^verbatim>\<open>delete\<close> on a nil map or a missing key does nothing.\<close>

fun removeUnused :: "int \<Rightarrow> int list \<Rightarrow> distCacheMap option \<Rightarrow> distCacheMap option" where
  "removeUnused nj [] c = c"
| "removeUnused nj (k # ks) c =
     (if k = nj then removeUnused nj ks (case c of None \<Rightarrow> None | Some m \<Rightarrow> Some (m(nj := None)))
      else removeUnused nj ks
             (case c of
                None \<Rightarrow> None
              | Some m \<Rightarrow> (case m k of None \<Rightarrow> Some m | Some row \<Rightarrow> Some (m(k \<mapsto> row(nj := None))))))"

text \<open>"apply lance-williams update method to all affected pairs"\<close>

fun lwUpdate ::
  "float64 list \<Rightarrow> float64 list \<Rightarrow> float64 list \<Rightarrow> float64 \<Rightarrow> int \<Rightarrow> int list \<Rightarrow> distCacheMap option
     \<Rightarrow> panic + distCacheMap option" where
  "lwUpdate lw diks djks origDist ni [] c = Inr c"
| "lwUpdate lw diks djks origDist ni (k # ks) c =
     (case idx diks k of
        Inl e \<Rightarrow> Inl e
      | Inr dik \<Rightarrow>
         (case idx djks k of
            Inl e \<Rightarrow> Inl e
          | Inr djk \<Rightarrow>
             (let dd0 = fsub dik djk;
                  dd = (if flt dd0 (Fin 0) then fneg dd0 else dd0)
              in case idx lw 0 of
                   Inl e \<Rightarrow> Inl e
                 | Inr lw0 \<Rightarrow>
                    (case idx lw 1 of
                       Inl e \<Rightarrow> Inl e
                     | Inr lw1 \<Rightarrow>
                        (case idx lw 2 of
                           Inl e \<Rightarrow> Inl e
                         | Inr lw2 \<Rightarrow>
                            (case idx lw 3 of
                               Inl e \<Rightarrow> Inl e
                             | Inr lw3 \<Rightarrow>
                                (let d = fadd (fadd (fadd (fmul lw0 dik) (fmul lw1 djk)) (fmul lw2 origDist))
                                           (fmul lw3 dd)
                                 in case (if ni < k then cacheStore c ni k d else cacheStore c k ni d) of
                                      Inl e \<Rightarrow> Inl e
                                    | Inr c1 \<Rightarrow> lwUpdate lw diks djks origDist ni ks c1)))))))"

definition mergeAndUpdateAll ::
  "('cs, 'item) ClusterSet \<Rightarrow> ('l, 'item) LinkageType \<Rightarrow> ('cs, 'l) HClustering \<Rightarrow> int \<Rightarrow> int
     \<Rightarrow> panic + ('cs, 'l) HClustering" where
  "mergeAndUpdateAll C L h i j =
     (let nc = Count C (clusterSet h)
      in case snapshotDists C L i j [0 .. nc - 1] h of
           Inl e \<Rightarrow> Inl e
         | Inr (diks, djks, h1) \<Rightarrow>
            (case idx diks j of
               Inl e \<Rightarrow> Inl e
             | Inr origDist \<Rightarrow>
                (case Merge C (clusterSet h1) i j of
                   Inl e \<Rightarrow> Inl e
                 | Inr (cs1, ni, nj) \<Rightarrow>
                    (case (if nj \<noteq> j then
                             (let r = (if ni = j then i else j)
                              in case moveCached r nj [0 .. nc - 1] (distCache h1) of
                                   Inl e \<Rightarrow> Inl e
                                 | Inr c1 \<Rightarrow> Inr (removeUnused nj [0 .. nc - 1] c1))
                           else Inr (distCache h1)) of
                       Inl e \<Rightarrow> Inl e
                     | Inr c2 \<Rightarrow>
                        (case lwUpdate (lwCache h1) diks djks origDist ni [0 .. nc - 2] c2 of
                           Inl e \<Rightarrow> Inl e
                         | Inr c3 \<Rightarrow> Inr (h1\<lparr>clusterSet := cs1, distCache := c3\<rparr>))))))"

text \<open>The best-pair search of \<^verbatim>\<open>MergeNext\<close>: one comparison, the inner and the outer loop.\<close>

definition bestStep :: "float64 \<times> (int \<times> int) option \<Rightarrow> int \<times> int \<Rightarrow> float64 \<Rightarrow> float64 \<times> (int \<times> int) option" where
  "bestStep best pair score = (if flt score (fst best) then (score, Some pair) else best)"

fun innerSearch ::
  "('cs, 'item) ClusterSet \<Rightarrow> ('l, 'item) LinkageType \<Rightarrow> int \<Rightarrow> int list
     \<Rightarrow> (float64 \<times> (int \<times> int) option) \<times> ('cs, 'l) HClustering
     \<Rightarrow> panic + ((float64 \<times> (int \<times> int) option) \<times> ('cs, 'l) HClustering)" where
  "innerSearch C L c1 [] st = Inr st"
| "innerSearch C L c1 (c2 # cs2) st =
     (case dist_h C L (snd st) c1 c2 of
        Inl e \<Rightarrow> Inl e
      | Inr (score, h1) \<Rightarrow> innerSearch C L c1 cs2 (bestStep (fst st) (c1, c2) score, h1))"

fun outerSearch ::
  "('cs, 'item) ClusterSet \<Rightarrow> ('l, 'item) LinkageType \<Rightarrow> int list
     \<Rightarrow> (float64 \<times> (int \<times> int) option) \<times> ('cs, 'l) HClustering
     \<Rightarrow> panic + ((float64 \<times> (int \<times> int) option) \<times> ('cs, 'l) HClustering)" where
  "outerSearch C L [] st = Inr st"
| "outerSearch C L (c1 # cs1) st =
     (case innerSearch C L c1 (EachCluster C (clusterSet (snd st)) c1) st of
        Inl e \<Rightarrow> Inl e
      | Inr st1 \<Rightarrow> outerSearch C L cs1 st1)"

text \<open>The start of \<^verbatim>\<open>MergeNext\<close>: unless \<^verbatim>\<open>lwCache\<close> has four entries, it is read
  from the linkage type and \<^verbatim>\<open>distCache\<close> is made anew.\<close>

definition prepareCaches :: "('l, 'item) LinkageType \<Rightarrow> ('cs, 'l) HClustering \<Rightarrow> ('cs, 'l) HClustering" where
  "prepareCaches L h =
     (if length (lwCache h) \<noteq> 4
      then h\<lparr>lwCache := LWParams L (linkageType h), distCache := Some Map.empty\<rparr>
      else h)"

definition bestPairSearch ::
  "('cs, 'item) ClusterSet \<Rightarrow> ('l, 'item) LinkageType \<Rightarrow> ('cs, 'l) HClustering
     \<Rightarrow> panic + ((float64 \<times> (int \<times> int) option) \<times> ('cs, 'l) HClustering)" where
  "bestPairSearch C L h =
     outerSearch C L (EachCluster C (clusterSet h) (- 1)) ((Fin MaxFloat64, None), h)"

definition MergeNext ::
  "('cs, 'item) ClusterSet \<Rightarrow> ('cs, 'item) Checker \<Rightarrow> ('l, 'item) LinkageType \<Rightarrow> ('cs, 'l) HClustering
     \<Rightarrow> panic + (bool \<times> ('cs, 'l) HClustering)" where
  "MergeNext C chk L h =
     (case bestPairSearch C L (prepareCaches L h) of
        Inl e \<Rightarrow> Inl e
      | Inr ((bestScore, bestPair), h1) \<Rightarrow>
         (case bestPair of
            None \<Rightarrow> Inr (False, h1)
          | Some (c1, c2) \<Rightarrow>
             (if feq bestScore (Fin MaxFloat64) then Inr (False, h1)
              else if \<not> chk C (clusterSet h1) c1 c2 bestScore then Inr (False, h1)
              else if distCache h1 = None then
                (case Merge C (clusterSet h1) c1 c2 of
                   Inl e \<Rightarrow> Inl e
                 | Inr (cs1, ni, nj) \<Rightarrow> Inr (True, h1\<lparr>clusterSet := cs1\<rparr>))
              else
                (case mergeAndUpdateAll C L h1 c1 c2 of
                   Inl e \<Rightarrow> Inl e
                 | Inr h2 \<Rightarrow> Inr (True, h2)))))"

text \<open>
  \<^verbatim>\<open>Cluster\<close>: the loop \<^verbatim>\<open>for h.ClusterSet.Count() > 1 { if !h.MergeNext() { break } }\<close>. A
  \<^verbatim>\<open>ClusterSet\<close> whose \<^verbatim>\<open>Merge\<close> does not shrink it keeps the loop running, so the loop
  takes fuel: one unit for each call of \<^verbatim>\<open>MergeNext\<close>, \<open>None\<close> when it runs out.
\<close>

fun Cluster_loop ::
  "nat \<Rightarrow> ('cs, 'item) ClusterSet \<Rightarrow> ('cs, 'item) Checker \<Rightarrow> ('l, 'item) LinkageType \<Rightarrow> ('cs, 'l) HClustering
     \<Rightarrow> (panic + ('cs, 'l) HClustering) option" where
  "Cluster_loop 0 C chk L h = (if Count C (clusterSet h) > 1 then None else Some (Inr h))"
| "Cluster_loop (Suc n) C chk L h =
     (if Count C (clusterSet h) > 1 then
        (case MergeNext C chk L h of
           Inl e \<Rightarrow> Some (Inl e)
         | Inr (merged, h1) \<Rightarrow> if \<not> merged then Some (Inr h1) else Cluster_loop n C chk L h1)
      else Some (Inr h))"

text \<open>A fresh engine, as \<^verbatim>\<open>Cluster\<close> builds it.\<close>

definition newHClustering :: "'cs \<Rightarrow> 'l \<Rightarrow> ('cs, 'l) HClustering" where
  "newHClustering c lt = \<lparr> clusterSet = c, linkageType = lt, lwCache = [], distCache = None \<rparr>"

definition Cluster ::
  "nat \<Rightarrow> ('cs, 'item) ClusterSet \<Rightarrow> 'cs \<Rightarrow> ('cs, 'item) Checker \<Rightarrow> ('l, 'item) LinkageType \<Rightarrow> 'l
     \<Rightarrow> (panic + ('cs, 'l) HClustering) option" where
  "Cluster fuel C c chk L lt =
     Cluster_loop fuel C chk L (newHClustering c lt)"

subsection \<open>Notions used in the proofs\<close>

text \<open>
  \<open>hasRow\<close>: the cache is not nil and has a row for the index. \<open>safeLinkage\<close>: a linkage
  type whose \<^verbatim>\<open>Put\<close> does not panic in any accumulator that \<^verbatim>\<open>Reset\<close> or an earlier
  \<^verbatim>\<open>Put\<close> has left, and whose \<^verbatim>\<open>LWParams\<close> returns four values. \<open>sameFrame\<close>: two
  engine states with the same cluster set and coefficients, and both or neither with a
  cache. \<open>avgReady\<close>: an average linkage whose item sets are not nil, or that does not
  use them.
\<close>

definition hasRow :: "distCacheMap option \<Rightarrow> int \<Rightarrow> bool" where
  "hasRow c x = (case c of None \<Rightarrow> False | Some m \<Rightarrow> m x \<noteq> None)"

definition safeLinkage :: "('l, 'item) LinkageType \<Rightarrow> ('l \<Rightarrow> bool) \<Rightarrow> bool" where
  "safeLinkage L ready =
     ((\<forall>l. ready (Reset L l))
      \<and> (\<forall>l a b d. ready l \<longrightarrow> (\<exists>l1. Put L l a b d = Inr l1 \<and> ready l1))
      \<and> (\<forall>l. length (LWParams L l) = 4))"

definition sameFrame :: "('cs, 'l) HClustering \<Rightarrow> ('cs, 'l) HClustering \<Rightarrow> bool" where
  "sameFrame h h1 =
     (clusterSet h1 = clusterSet h \<and> lwCache h1 = lwCache h \<and> (distCache h1 = None) = (distCache h = None))"

definition avgReady :: "'item avgLinkage \<Rightarrow> bool" where
  "avgReady l = (isWeighted l \<or> (leftCounts l \<noteq> None \<and> rightCounts l \<noteq> None))"

subsection \<open>Example inputs\<close>

text \<open>
  The distance map of the package documentation and of \<^verbatim>\<open>TestDistanceMapClustering3\<close>,
  with the clusters in the order \<open>a, b, c, d, e\<close> (one of the orders the map range can take).
\<close>

definition docMap :: "string \<rightharpoonup> (string \<rightharpoonup> float64)" where
  "docMap =
     [''a'' \<mapsto> [''b'' \<mapsto> Fin 0, ''c'' \<mapsto> Fin 0, ''d'' \<mapsto> Fin 1, ''e'' \<mapsto> Fin (4 / 10)],
      ''b'' \<mapsto> [''c'' \<mapsto> Fin (1 / 10), ''d'' \<mapsto> Fin (9 / 10), ''e'' \<mapsto> Fin (4 / 10)],
      ''c'' \<mapsto> [''d'' \<mapsto> Fin (9 / 10), ''e'' \<mapsto> Fin (2 / 10)],
      ''d'' \<mapsto> [''e'' \<mapsto> Fin (1 / 10)]]"

definition docSet :: "string distMapClusterSet" where
  "docSet =
     NewDistanceMapClusterSet docMap
       [(''a'', [''b'', ''c'', ''d'', ''e'']), (''b'', [''c'', ''d'', ''e'']), (''c'', [''d'', ''e'']),
        (''d'', [''e''])]"

text \<open>Three items whose distances are exact in binary floating point.\<close>

definition abcMap :: "string \<rightharpoonup> (string \<rightharpoonup> float64)" where
  "abcMap = [''a'' \<mapsto> [''b'' \<mapsto> Fin 0, ''c'' \<mapsto> Fin (1 / 2)], ''b'' \<mapsto> [''c'' \<mapsto> Fin (1 / 4)]]"

definition abcSet :: "string distMapClusterSet" where
  "abcSet = NewDistanceMapClusterSet abcMap [(''a'', [''b'', ''c'']), (''b'', [''c''])]"

text \<open>The two items of \<^verbatim>\<open>TestDistanceMapClustering1\<close>.\<close>

definition abMap :: "string \<rightharpoonup> (string \<rightharpoonup> float64)" where
  "abMap = [''a'' \<mapsto> [''b'' \<mapsto> Fin 0]]"

definition abSet :: "string distMapClusterSet" where
  "abSet = NewDistanceMapClusterSet abMap [(''a'', [''b''])]"

text \<open>A linkage type that scores as complete linkage does and returns no Lance-Williams
  parameters.\<close>

definition noParamsLinkage :: "(maxLinkage, string) LinkageType" where
  "noParamsLinkage = maxLinkage_methods\<lparr>LWParams := (\<lambda>c. [])\<rparr>"

section \<open>Properties\<close>

subsection \<open>Evaluation of concrete runs\<close>

lemmas run_defs =
  NewDistanceMapClusterSet_def addUnique_def DistanceMapClusterSet_def
  distMap_EachCluster_def distMap_EachItem_def distMap_Distance_def distMap_Count_def distMap_Merge_def
  Threshold_def MaxClusters_def maxLinkage_methods_def minLinkage_methods_def avgLinkage_methods_def
  maxLinkage_Put_def minLinkage_Put_def avgLinkage_Reset_def avgLinkage_Get_def avgLinkage_Put_def
  avgLinkage_LWParams_def mapLen_def CompleteLinkage_def SingleLinkage_def AverageLinkage_def
  WeightedAverageLinkage_def cacheRead_def cacheStore_def EachItemDistance_def linkageScore_def
  dist_h_def mergeAndUpdateAll_def bestStep_def prepareCaches_def bestPairSearch_def MergeNext_def
  Cluster_def newHClustering_def idx_def MaxFloat64_def Let_def upto.simps eval_nat_numeral

lemma docSet_clusters: "clusters docSet = [[''a''], [''b''], [''c''], [''d''], [''e'']]"
  by (simp add: docSet_def run_defs)

lemma abcSet_clusters: "clusters abcSet = [[''a''], [''b''], [''c'']]"
  by (simp add: abcSet_def run_defs)

text \<open>The model runs \<^verbatim>\<open>TestDistanceMapClustering3\<close> as the test expects: complete linkage with
  threshold 0.4 leaves the clusters \<open>{a, b, c}\<close> and \<open>{d, e}\<close>.\<close>

lemma TestDistanceMapClustering3:
  "map_option (map_sum id (\<lambda>h. clusters (clusterSet h)))
     (Cluster 5 DistanceMapClusterSet docSet (Threshold (Fin (4 / 10))) maxLinkage_methods CompleteLinkage)
   = Some (Inr [[''a'', ''b'', ''c''], [''e'', ''d'']])"
  by (simp add: docSet_def docMap_def run_defs)

subsection \<open>The linkage types\<close>

lemma MaxFloat64_pos: "0 < MaxFloat64"
  by (simp add: MaxFloat64_def)

lemma avg_sel:
  "Reset avgLinkage_methods = avgLinkage_Reset" "Get avgLinkage_methods = avgLinkage_Get"
  "Put avgLinkage_methods = avgLinkage_Put" "LWParams avgLinkage_methods = avgLinkage_LWParams"
  by (simp_all add: avgLinkage_methods_def)

lemma max_sel:
  "Reset maxLinkage_methods l = \<lparr>maxDist = Fin (- 1)\<rparr>" "Get maxLinkage_methods = maxDist"
  "Put maxLinkage_methods = maxLinkage_Put"
  by (simp_all add: maxLinkage_methods_def)

lemma putAll_max_total: "\<exists>l1. putAll maxLinkage_methods ps l = Inr l1"
  by (induction ps arbitrary: l) (auto simp: maxLinkage_methods_def maxLinkage_Put_def)

lemma putAll_min_total: "\<exists>l1. putAll minLinkage_methods ps l = Inr l1"
  by (induction ps arbitrary: l) (auto simp: minLinkage_methods_def minLinkage_Put_def)

lemma putAll_max_nonneg:
  "0 \<le> m \<Longrightarrow>
   putAll maxLinkage_methods (observed ps) \<lparr>maxDist = Fin m\<rparr>
     = Inr \<lparr>maxDist = Fin (Max (insert m (set (dists ps))))\<rparr>"
proof (induction ps arbitrary: m)
  case Nil
  then show ?case by (simp add: observed_def dists_def)
next
  case (Cons p ps)
  obtain a b d where p: "p = (a, b, d)" by (cases p)
  have step: "Put maxLinkage_methods \<lparr>maxDist = Fin m\<rparr> a b (Fin d) = Inr \<lparr>maxDist = Fin (max m d)\<rparr>"
    using Cons.prems by (simp add: max_sel maxLinkage_Put_def max_def)
  have m0: "0 \<le> max m d" using Cons.prems by simp
  have "Max (insert (max m d) (set (dists ps))) = Max (insert m (set (dists (p # ps))))"
  proof (cases "ps = []")
    case True
    then show ?thesis using p by (simp add: dists_def max.commute)
  next
    case False
    then show ?thesis using p by (simp add: dists_def max.assoc max.commute max.left_commute)
  qed
  then show ?case using Cons.IH[OF m0] step p by (simp add: observed_def)
qed

lemma putAll_max_neg:
  "m < 0 \<Longrightarrow> ps \<noteq> [] \<Longrightarrow>
   putAll maxLinkage_methods (observed ps) \<lparr>maxDist = Fin m\<rparr>
     = Inr \<lparr>maxDist = Fin (if \<exists>d\<in>set (dists ps). 0 \<le> d then Max (set (dists ps)) else last (dists ps))\<rparr>"
proof (induction ps arbitrary: m)
  case Nil
  then show ?case by simp
next
  case (Cons p ps)
  obtain a b d where p: "p = (a, b, d)" by (cases p)
  have step: "Put maxLinkage_methods \<lparr>maxDist = Fin m\<rparr> a b (Fin d) = Inr \<lparr>maxDist = Fin d\<rparr>"
    using Cons.prems(1) by (simp add: max_sel maxLinkage_Put_def)
  have unfold: "putAll maxLinkage_methods (observed (p # ps)) \<lparr>maxDist = Fin m\<rparr>
                  = putAll maxLinkage_methods (observed ps) \<lparr>maxDist = Fin d\<rparr>"
    using step p by (simp add: observed_def)
  show ?case
  proof (cases "0 \<le> d")
    case True
    have "Max (insert d (set (dists ps))) = Max (set (dists (p # ps)))"
      using p by (simp add: dists_def)
    moreover have "\<exists>x\<in>set (dists (p # ps)). 0 \<le> x" using True p by (simp add: dists_def)
    ultimately show ?thesis using putAll_max_nonneg[OF True, of ps] unfold by simp
  next
    case False
    then have dneg: "d < 0" by simp
    show ?thesis
    proof (cases "ps = []")
      case True
      then show ?thesis using unfold p False by (simp add: observed_def dists_def)
    next
      case nonempty: False
      have ih: "putAll maxLinkage_methods (observed ps) \<lparr>maxDist = Fin d\<rparr>
        = Inr \<lparr>maxDist = Fin (if \<exists>d\<in>set (dists ps). 0 \<le> d then Max (set (dists ps)) else last (dists ps))\<rparr>"
        using Cons.IH[OF dneg nonempty] .
      have ne: "dists ps \<noteq> []" using nonempty by (simp add: dists_def)
      have l: "last (dists (p # ps)) = last (dists ps)" using ne by (simp add: dists_def)
      have e: "(\<exists>x\<in>set (dists (p # ps)). 0 \<le> x) = (\<exists>x\<in>set (dists ps). 0 \<le> x)"
        using p dneg by (auto simp: dists_def)
      have mx: "(\<exists>x\<in>set (dists ps). 0 \<le> x) \<Longrightarrow> Max (set (dists (p # ps))) = Max (set (dists ps))"
      proof -
        assume "\<exists>x\<in>set (dists ps). 0 \<le> x"
        then obtain x where x: "x \<in> set (dists ps)" "0 \<le> x" by blast
        have "x \<le> Max (set (dists ps))" using x(1) by simp
        then have "d \<le> Max (set (dists ps))" using dneg x(2) by linarith
        then show ?thesis using p ne by (simp add: dists_def max_def)
      qed
      show ?thesis using ih unfold l e mx by auto
    qed
  qed
qed

lemma putAll_avg_weighted:
  "isWeighted l \<Longrightarrow>
   putAll avgLinkage_methods ps l =
     Inr (l\<lparr>avgDist := sumDists (avgDist l) ps, totalPairs := countPairs (totalPairs l) ps\<rparr>)"
proof (induction ps arbitrary: l)
  case Nil
  then show ?case by simp
next
  case (Cons p ps)
  obtain a b d where p: "p = (a, b, d)" by (cases p)
  let ?l1 = "l\<lparr>avgDist := fadd (avgDist l) d, totalPairs := fadd (totalPairs l) (Fin 1)\<rparr>"
  have step: "Put avgLinkage_methods l a b d = Inr ?l1"
    using Cons.prems by (simp add: avg_sel avgLinkage_Put_def)
  have w: "isWeighted ?l1" using Cons.prems by simp
  show ?case using Cons.IH[OF w] step p by simp
qed

lemma putAll_avg_unweighted:
  "\<not> isWeighted l \<Longrightarrow> leftCounts l = Some A \<Longrightarrow> rightCounts l = Some B \<Longrightarrow>
   putAll avgLinkage_methods ps l =
     Inr (l\<lparr>avgDist := sumDists (avgDist l) ps, totalPairs := countPairs (totalPairs l) ps,
            leftCounts := Some (A \<union> fst ` set ps), rightCounts := Some (B \<union> (\<lambda>p. fst (snd p)) ` set ps)\<rparr>)"
proof (induction ps arbitrary: l A B)
  case Nil
  then show ?case by simp
next
  case (Cons p ps)
  obtain a b d where p: "p = (a, b, d)" by (cases p)
  let ?l1 = "l\<lparr>avgDist := fadd (avgDist l) d, totalPairs := fadd (totalPairs l) (Fin 1),
               leftCounts := Some (insert a A), rightCounts := Some (insert b B)\<rparr>"
  have step: "Put avgLinkage_methods l a b d = Inr ?l1"
    using Cons.prems by (simp add: avg_sel avgLinkage_Put_def)
  have w: "\<not> isWeighted ?l1" "leftCounts ?l1 = Some (insert a A)" "rightCounts ?l1 = Some (insert b B)"
    using Cons.prems by simp_all
  show ?case using Cons.IH[OF w] step p by simp
qed

lemma resetPutGet_avg:
  "resetPutGet avgLinkage_methods l ps =
     Inr (avgLinkage_Get (l\<lparr>avgDist := sumDists (Fin 0) ps, totalPairs := countPairs (Fin 0) ps\<rparr>),
          l\<lparr>avgDist := sumDists (Fin 0) ps, totalPairs := countPairs (Fin 0) ps,
            leftCounts := (if isWeighted l then leftCounts l else Some (fst ` set ps)),
            rightCounts := (if isWeighted l then rightCounts l else Some ((\<lambda>p. fst (snd p)) ` set ps))\<rparr>)"
proof (cases "isWeighted l")
  case True
  have r: "avgLinkage_Reset l = l\<lparr>avgDist := Fin 0, totalPairs := Fin 0\<rparr>"
    using True by (simp add: avgLinkage_Reset_def)
  have w: "isWeighted (l\<lparr>avgDist := Fin 0, totalPairs := Fin 0\<rparr>)" using True by simp
  show ?thesis
    using True putAll_avg_weighted[OF w, of ps]
    by (simp add: resetPutGet_def r avg_sel(1,2))
next
  case False
  let ?r = "l\<lparr>avgDist := Fin 0, totalPairs := Fin 0, leftCounts := Some {}, rightCounts := Some {}\<rparr>"
  have r: "avgLinkage_Reset l = ?r"
    using False by (simp add: avgLinkage_Reset_def)
  have w: "\<not> isWeighted ?r" "leftCounts ?r = Some {}" "rightCounts ?r = Some {}" using False by simp_all
  show ?thesis
    using False putAll_avg_unweighted[OF w, of ps]
    by (simp add: resetPutGet_def r avg_sel(1,2) avgLinkage_Get_def)
qed

lemma min_sel:
  "Reset minLinkage_methods l = \<lparr>minDist = Fin (- 1)\<rparr>" "Get minLinkage_methods = minDist"
  "Put minLinkage_methods = minLinkage_Put"
  by (simp_all add: minLinkage_methods_def)

text \<open>
  C4, as the code has it. Complete linkage: after \<^verbatim>\<open>Reset\<close> and a non-empty sequence of
  \<^verbatim>\<open>Put\<close> calls with finite distances, \<^verbatim>\<open>Get\<close> returns the maximum of the distances
  when at least one of them is not negative, and the last distance put when all are
  negative. When nothing was put, \<^verbatim>\<open>Get\<close> returns \<open>-1.0\<close>; the best-pair search takes
  that score: it is below the initial best score \<^verbatim>\<open>math.MaxFloat64\<close> and below every score
  that is not negative.
\<close>

theorem maxLinkage_Get_max:
  "(ps \<noteq> [] \<and> (\<exists>d\<in>set (dists ps). 0 \<le> d) \<longrightarrow>
      (\<exists>l1. resetPutGet maxLinkage_methods c (observed ps) = Inr (Fin (Max (set (dists ps))), l1)))
   \<and> (ps \<noteq> [] \<and> (\<forall>d\<in>set (dists ps). d < 0) \<longrightarrow>
      (\<exists>l1. resetPutGet maxLinkage_methods c (observed ps) = Inr (Fin (last (dists ps)), l1)))
   \<and> (\<exists>l1. resetPutGet maxLinkage_methods c [] = Inr (Fin (- 1), l1))
   \<and> bestStep (Fin MaxFloat64, None) pair (Fin (- 1)) = (Fin (- 1), Some pair)
   \<and> (\<forall>x\<ge>0. \<forall>bp. bestStep (Fin x, bp) pair (Fin (- 1)) = (Fin (- 1), Some pair))
   \<and> \<not> feq (Fin (- 1)) (Fin MaxFloat64)"
proof (intro conjI impI)
  assume a: "ps \<noteq> [] \<and> (\<exists>d\<in>set (dists ps). 0 \<le> d)"
  show "\<exists>l1. resetPutGet maxLinkage_methods c (observed ps) = Inr (Fin (Max (set (dists ps))), l1)"
    using a putAll_max_neg[of "- 1" ps] by (simp add: resetPutGet_def max_sel)
next
  assume a: "ps \<noteq> [] \<and> (\<forall>d\<in>set (dists ps). d < 0)"
  then have "\<not> (\<exists>d\<in>set (dists ps). 0 \<le> d)" by auto
  then show "\<exists>l1. resetPutGet maxLinkage_methods c (observed ps) = Inr (Fin (last (dists ps)), l1)"
    using a putAll_max_neg[of "- 1" ps] by (simp add: resetPutGet_def max_sel)
next
  show "\<exists>l1. resetPutGet maxLinkage_methods c [] = Inr (Fin (- 1), l1)"
    by (simp add: resetPutGet_def max_sel)
next
  show "bestStep (Fin MaxFloat64, None) pair (Fin (- 1)) = (Fin (- 1), Some pair)"
    using MaxFloat64_pos by (simp add: bestStep_def)
next
  show "\<forall>x\<ge>0. \<forall>bp. bestStep (Fin x, bp) pair (Fin (- 1)) = (Fin (- 1), Some pair)"
    by (simp add: bestStep_def)
next
  show "\<not> feq (Fin (- 1)) (Fin MaxFloat64)"
    using MaxFloat64_pos by simp
qed

theorem maxLinkage_Get_max_witness:
  "(\<exists>l1. resetPutGet maxLinkage_methods CompleteLinkage
             [(''a'', ''c'', Fin (- 2)), (''a'', ''d'', Fin (1 / 2)), (''b'', ''c'', Fin (1 / 4))]
           = Inr (Fin (1 / 2), l1))
   \<and> (\<exists>l1. resetPutGet maxLinkage_methods CompleteLinkage
             [(''a'', ''c'', Fin (- 3)), (''a'', ''d'', Fin (- 2)), (''b'', ''c'', Fin (- 4))]
           = Inr (Fin (- 4), l1))
   \<and> bestStep (Fin (1 / 4), Some (0, 1)) (1, 2) (Fin (- 1)) = (Fin (- 1), Some (1, 2))"
proof -
  note t1 = maxLinkage_Get_max[of "[(''a'', ''c'', - 2), (''a'', ''d'', 1 / 2), (''b'', ''c'', 1 / 4)]"
      CompleteLinkage "(1, 2)"]
  note t2 = maxLinkage_Get_max[of "[(''a'', ''c'', - 3), (''a'', ''d'', - 2), (''b'', ''c'', - 4)]"
      CompleteLinkage "(1, 2)"]
  have 1: "\<exists>l1. resetPutGet maxLinkage_methods CompleteLinkage
             [(''a'', ''c'', Fin (- 2)), (''a'', ''d'', Fin (1 / 2)), (''b'', ''c'', Fin (1 / 4))]
           = Inr (Fin (1 / 2), l1)"
    using t1 by (simp add: observed_def dists_def; blast)
  have 2: "\<exists>l1. resetPutGet maxLinkage_methods CompleteLinkage
             [(''a'', ''c'', Fin (- 3)), (''a'', ''d'', Fin (- 2)), (''b'', ''c'', Fin (- 4))]
           = Inr (Fin (- 4), l1)"
    using t2 by (simp add: observed_def dists_def; blast)
  have a: "\<forall>x\<ge>0. \<forall>bp. bestStep (Fin x, bp) (1, 2) (Fin (- 1)) = (Fin (- 1), Some (1, 2))"
    using t1 by blast
  have 3: "bestStep (Fin (1 / 4), Some (0, 1)) (1, 2) (Fin (- 1)) = (Fin (- 1), Some (1, 2))"
    using a[rule_format, of "1 / 4" "Some (0, 1)"] by simp
  show ?thesis using 1 2 3 by blast
qed

text \<open>
  C4 as the specification states it fails twice. After \<^verbatim>\<open>Reset\<close>, \<^verbatim>\<open>Put\<close> of \<open>-2\<close> and
  \<^verbatim>\<open>Put\<close> of \<open>-3\<close>, \<^verbatim>\<open>Get\<close> returns \<open>-3\<close>, not the maximum \<open>-2\<close>: while the
  accumulator is negative every \<^verbatim>\<open>Put\<close> overwrites it. And the score \<open>-1.0\<close> of a pair with
  nothing put is selected: with clusters \<open>{a}\<close>, \<open>{b}\<close> and an empty one, and threshold 0,
  \<^verbatim>\<open>MergeNext\<close> merges \<open>{a}\<close> with the empty cluster at score \<open>-1.0\<close>, though the only
  pair of items is at distance 0.5.
\<close>

theorem maxLinkage_Get_counterexample:
  "map_sum id fst (resetPutGet maxLinkage_methods CompleteLinkage
                     [(''a'', ''c'', Fin (- 2)), (''b'', ''c'', Fin (- 3))]) = Inr (Fin (- 3))
   \<and> Max {- 2, - 3 :: real} = - 2
   \<and> bestStep (Fin MaxFloat64, None) (0, 2)
        (Get maxLinkage_methods (Reset maxLinkage_methods CompleteLinkage)) = (Fin (- 1), Some (0, 2))
   \<and> map_sum id (\<lambda>r. (fst r, clusters (clusterSet (snd r))))
        (MergeNext DistanceMapClusterSet (Threshold (Fin 0)) maxLinkage_methods
           (newHClustering \<lparr> data = [''a'' \<mapsto> [''b'' \<mapsto> Fin (1 / 2)]], clusters = [[''a''], [''b''], []] \<rparr>
              CompleteLinkage))
      = Inr (True, [[''a''], [''b'']])"
  by (simp add: resetPutGet_def run_defs)

text \<open>
  C9. For complete, single and both average linkages: a cycle \<^verbatim>\<open>Reset\<close>, \<^verbatim>\<open>Put\<close>*,
  \<^verbatim>\<open>Get\<close> from any accumulator, followed by a second cycle with the same observations
  from the accumulator the first one left, returns the same score both times, and neither
  cycle panics. \<^verbatim>\<open>Reset\<close> clears everything accumulated: the score, and the accumulator
  the cycle leaves, do not depend on the accumulator it started from. For the average
  linkages the sum and the pair count after the cycle are those of its own observations;
  for the unweighted variant the two item sets after the cycle hold exactly the items of
  its own observations, whatever they held before (the weighted variant never touches
  them).
\<close>

theorem linkage_reset_idempotent:
  "(\<exists>v l1 l2. resetPutGet maxLinkage_methods c ps = Inr (v, l1) \<and> resetPutGet maxLinkage_methods l1 ps = Inr (v, l2)
        \<and> l2 = l1 \<and> resetPutGet maxLinkage_methods c' ps = Inr (v, l1))
   \<and> (\<exists>v l1 l2. resetPutGet minLinkage_methods m ps = Inr (v, l1) \<and> resetPutGet minLinkage_methods l1 ps = Inr (v, l2)
        \<and> l2 = l1 \<and> resetPutGet minLinkage_methods m' ps = Inr (v, l1))
   \<and> (\<exists>v l1 l2. resetPutGet avgLinkage_methods a ps = Inr (v, l1) \<and> resetPutGet avgLinkage_methods l1 ps = Inr (v, l2)
        \<and> isWeighted l1 = isWeighted a \<and> l2 = l1
        \<and> avgDist l1 = sumDists (Fin 0) ps \<and> totalPairs l1 = countPairs (Fin 0) ps
        \<and> leftCounts l1 = (if isWeighted a then leftCounts a else Some (fst ` set ps))
        \<and> rightCounts l1 = (if isWeighted a then rightCounts a else Some ((\<lambda>p. fst (snd p)) ` set ps))
        \<and> (\<exists>l3. resetPutGet avgLinkage_methods a' ps = Inr (v, l3)))"
proof (intro conjI)
  obtain l1 where 1: "putAll maxLinkage_methods ps \<lparr>maxDist = Fin (- 1)\<rparr> = Inr l1"
    using putAll_max_total by blast
  show "\<exists>v l1 l2. resetPutGet maxLinkage_methods c ps = Inr (v, l1) \<and> resetPutGet maxLinkage_methods l1 ps = Inr (v, l2)
        \<and> l2 = l1 \<and> resetPutGet maxLinkage_methods c' ps = Inr (v, l1)"
    using 1 by (simp add: resetPutGet_def max_sel(1))
next
  obtain l1 where 1: "putAll minLinkage_methods ps \<lparr>minDist = Fin (- 1)\<rparr> = Inr l1"
    using putAll_min_total by blast
  show "\<exists>v l1 l2. resetPutGet minLinkage_methods m ps = Inr (v, l1) \<and> resetPutGet minLinkage_methods l1 ps = Inr (v, l2)
        \<and> l2 = l1 \<and> resetPutGet minLinkage_methods m' ps = Inr (v, l1)"
    using 1 by (simp add: resetPutGet_def min_sel(1))
next
  show "\<exists>v l1 l2. resetPutGet avgLinkage_methods a ps = Inr (v, l1) \<and> resetPutGet avgLinkage_methods l1 ps = Inr (v, l2)
        \<and> isWeighted l1 = isWeighted a \<and> l2 = l1
        \<and> avgDist l1 = sumDists (Fin 0) ps \<and> totalPairs l1 = countPairs (Fin 0) ps
        \<and> leftCounts l1 = (if isWeighted a then leftCounts a else Some (fst ` set ps))
        \<and> rightCounts l1 = (if isWeighted a then rightCounts a else Some ((\<lambda>p. fst (snd p)) ` set ps))
        \<and> (\<exists>l3. resetPutGet avgLinkage_methods a' ps = Inr (v, l3))"
    by (simp add: resetPutGet_avg avgLinkage_Get_def)
qed

theorem linkage_reset_idempotent_witness:
  "\<exists>l1. resetPutGet avgLinkage_methods
            (AverageLinkage\<lparr>avgDist := Fin 7, totalPairs := Fin 3, leftCounts := Some {''z''}, rightCounts := Some {''z''}\<rparr>)
            [(''a'', ''c'', Fin (1 / 2)), (''b'', ''c'', Fin (1 / 4))] = Inr (Fin (3 / 8), l1)
        \<and> resetPutGet avgLinkage_methods l1 [(''a'', ''c'', Fin (1 / 2)), (''b'', ''c'', Fin (1 / 4))]
            = Inr (Fin (3 / 8), l1)
        \<and> resetPutGet avgLinkage_methods AverageLinkage [(''a'', ''c'', Fin (1 / 2)), (''b'', ''c'', Fin (1 / 4))]
            = Inr (Fin (3 / 8), l1\<lparr>isWeighted := False\<rparr>)
        \<and> leftCounts l1 = Some {''a'', ''b''} \<and> rightCounts l1 = Some {''c''}
        \<and> avgDist l1 = Fin (3 / 4) \<and> totalPairs l1 = Fin 2"
proof -
  let ?a = "AverageLinkage\<lparr>avgDist := Fin 7, totalPairs := Fin 3, leftCounts := Some {''z''}, rightCounts := Some {''z''}\<rparr>
              :: string avgLinkage"
  let ?ps = "[(''a'', ''c'', Fin (1 / 2)), (''b'', ''c'', Fin (1 / 4))]"
  from linkage_reset_idempotent[of CompleteLinkage ?ps CompleteLinkage SingleLinkage SingleLinkage ?a AverageLinkage]
  obtain v l1 l2 l3 where
    a: "resetPutGet avgLinkage_methods ?a ?ps = Inr (v, l1)"
    and b: "resetPutGet avgLinkage_methods l1 ?ps = Inr (v, l2)" "l2 = l1"
    and w: "isWeighted l1 = isWeighted ?a"
    and s: "avgDist l1 = sumDists (Fin 0) ?ps" "totalPairs l1 = countPairs (Fin 0) ?ps"
    and c: "leftCounts l1 = (if isWeighted ?a then leftCounts ?a else Some (fst ` set ?ps))"
      "rightCounts l1 = (if isWeighted ?a then rightCounts ?a else Some ((\<lambda>p. fst (snd p)) ` set ?ps))"
    and d: "resetPutGet avgLinkage_methods AverageLinkage ?ps = Inr (v, l3)"
    by blast
  have v: "map_sum id fst (resetPutGet avgLinkage_methods ?a ?ps) = Inr (Fin (3 / 8))"
    by (simp add: resetPutGet_def run_defs)
  then have v': "v = Fin (3 / 8)" using a by simp
  have l3: "map_sum id snd (resetPutGet avgLinkage_methods (AverageLinkage :: string avgLinkage) ?ps)
              = map_sum id (\<lambda>r. (snd r)\<lparr>isWeighted := False\<rparr>) (resetPutGet avgLinkage_methods ?a ?ps)"
    by (simp add: resetPutGet_def run_defs)
  then have l3': "l3 = l1\<lparr>isWeighted := False\<rparr>" using a d by simp
  have c': "leftCounts l1 = Some {''a'', ''b''}" "rightCounts l1 = Some {''c''}"
    using c by (auto simp: AverageLinkage_def)
  have s': "avgDist l1 = Fin (3 / 4)" "totalPairs l1 = Fin 2" using s by simp_all
  show ?thesis using a b d v' l3' c' s' by auto
qed

text \<open>
  C10. For both average linkages (any accumulator, weighted or not), \<^verbatim>\<open>Get\<close> right after
  \<^verbatim>\<open>Reset\<close> returns 0.0; that is the score the engine computes for a pair whose first
  cluster has no items. The score 0.0 compares below every positive score, and the
  best-pair search takes it: against the initial best score \<^verbatim>\<open>math.MaxFloat64\<close> and against
  any positive best score so far; it is not the sentinel \<^verbatim>\<open>math.MaxFloat64\<close>.
\<close>

theorem avgLinkage_empty_score:
  "Get avgLinkage_methods (Reset avgLinkage_methods l) = Fin 0
   \<and> (\<exists>l1. resetPutGet avgLinkage_methods l [] = Inr (Fin 0, l1))
   \<and> (EachItem C cs i = Inr [] \<longrightarrow> (\<exists>l1. linkageScore C avgLinkage_methods cs l i j = Inr (Fin 0, l1)))
   \<and> (\<forall>x>0. flt (Fin 0) (Fin x))
   \<and> bestStep (Fin MaxFloat64, None) pair (Get avgLinkage_methods (Reset avgLinkage_methods l))
        = (Fin 0, Some pair)
   \<and> (\<forall>x>0. \<forall>bp. bestStep (Fin x, bp) pair (Get avgLinkage_methods (Reset avgLinkage_methods l))
        = (Fin 0, Some pair))
   \<and> \<not> feq (Fin 0) (Fin MaxFloat64)"
proof -
  have g: "Get avgLinkage_methods (Reset avgLinkage_methods l) = Fin 0"
    by (simp add: avg_sel avgLinkage_Reset_def avgLinkage_Get_def Let_def)
  show ?thesis
    using MaxFloat64_pos g by (simp add: resetPutGet_def linkageScore_def bestStep_def)
qed

theorem avgLinkage_empty_score_witness:
  "Get avgLinkage_methods (Reset avgLinkage_methods (AverageLinkage :: string avgLinkage)) = Fin 0
   \<and> Get avgLinkage_methods (Reset avgLinkage_methods (WeightedAverageLinkage :: string avgLinkage)) = Fin 0
   \<and> (\<exists>l1. linkageScore DistanceMapClusterSet avgLinkage_methods
              \<lparr> data = abMap, clusters = [[], [''a''], [''b'']] \<rparr> AverageLinkage 0 1 = Inr (Fin 0, l1))
   \<and> flt (Fin 0) (Fin (1 / 10))
   \<and> bestStep (Fin (1 / 10), Some (0, 1)) (1, 2)
        (Get avgLinkage_methods (Reset avgLinkage_methods (AverageLinkage :: string avgLinkage)))
        = (Fin 0, Some (1, 2))"
proof -
  note t1 = avgLinkage_empty_score[of "AverageLinkage :: string avgLinkage" DistanceMapClusterSet
      "\<lparr> data = abMap, clusters = [[], [''a''], [''b'']] \<rparr>" 0 1 "(1, 2)"]
  note t2 = avgLinkage_empty_score[of "WeightedAverageLinkage :: string avgLinkage" DistanceMapClusterSet
      docSet 0 1 "(1, 2)"]
  have 1: "Get avgLinkage_methods (Reset avgLinkage_methods (AverageLinkage :: string avgLinkage)) = Fin 0"
    using t1 by blast
  have 2: "Get avgLinkage_methods (Reset avgLinkage_methods (WeightedAverageLinkage :: string avgLinkage)) = Fin 0"
    using t2 by blast
  have e: "EachItem DistanceMapClusterSet \<lparr> data = abMap, clusters = [[], [''a''], [''b'']] \<rparr> 0 = Inr []"
    by (simp add: DistanceMapClusterSet_def distMap_EachItem_def idx_def)
  have 3: "\<exists>l1. linkageScore DistanceMapClusterSet avgLinkage_methods
              \<lparr> data = abMap, clusters = [[], [''a''], [''b'']] \<rparr> AverageLinkage 0 1 = Inr (Fin 0, l1)"
    using t1 e by blast
  have a: "\<forall>x>0. flt (Fin 0) (Fin x)" using t1 by blast
  have 4: "flt (Fin 0) (Fin (1 / 10))" using a[rule_format, of "1 / 10"] by simp
  have b: "\<forall>x>0. \<forall>bp. bestStep (Fin x, bp) (1, 2)
             (Get avgLinkage_methods (Reset avgLinkage_methods (AverageLinkage :: string avgLinkage)))
             = (Fin 0, Some (1, 2))"
    using t1 by blast
  have 5: "bestStep (Fin (1 / 10), Some (0, 1)) (1, 2)
             (Get avgLinkage_methods (Reset avgLinkage_methods (AverageLinkage :: string avgLinkage)))
             = (Fin 0, Some (1, 2))"
    using b[rule_format, of "1 / 10" "Some (0, 1)"] by simp
  show ?thesis using 1 2 3 4 5 by blast
qed

subsection \<open>The distance map\<close>

text \<open>
  C8. \<^verbatim>\<open>distMapClusterSet.Distance\<close> returns the entry stored for \<open>(a, b)\<close> when there is
  one, otherwise the entry stored for \<open>(b, a)\<close> when there is one, otherwise 1.0, whatever
  the cluster indices are. So when only \<open>(a, b)\<close> is stored, both argument orders give its
  value.
\<close>

theorem distMap_Distance_lookup:
  "(stored d a b = Some y \<longrightarrow> Distance DistanceMapClusterSet d c1 c2 a b = y)
   \<and> (stored d a b = None \<and> stored d b a = Some y \<longrightarrow> Distance DistanceMapClusterSet d c1 c2 a b = y)
   \<and> (stored d a b = None \<and> stored d b a = None \<longrightarrow> Distance DistanceMapClusterSet d c1 c2 a b = Fin 1)
   \<and> (stored d a b = Some y \<and> stored d b a = None \<longrightarrow>
        Distance DistanceMapClusterSet d c1 c2 a b = y \<and> Distance DistanceMapClusterSet d c3 c4 b a = y)"
  by (simp add: DistanceMapClusterSet_def distMap_Distance_def stored_def)

theorem distMap_Distance_lookup_witness:
  "stored abcSet ''a'' ''c'' = Some (Fin (1 / 2)) \<and> stored abcSet ''c'' ''a'' = None
   \<and> Distance DistanceMapClusterSet abcSet 0 2 ''a'' ''c'' = Fin (1 / 2)
   \<and> Distance DistanceMapClusterSet abcSet 2 0 ''c'' ''a'' = Fin (1 / 2)
   \<and> stored abcSet ''c'' ''c'' = None \<and> Distance DistanceMapClusterSet abcSet 2 2 ''c'' ''c'' = Fin 1"
proof -
  have s: "stored abcSet ''a'' ''c'' = Some (Fin (1 / 2))" "stored abcSet ''c'' ''a'' = None"
    "stored abcSet ''c'' ''c'' = None"
    by (simp_all add: stored_def abcSet_def abcMap_def NewDistanceMapClusterSet_def)
  show ?thesis
    using s distMap_Distance_lookup[of abcSet "''a''" "''c''" "Fin (1 / 2)" 0 2 2 0]
      distMap_Distance_lookup[of abcSet "''c''" "''c''" "Fin 1" 2 2 2 2]
    by simp
qed

subsection \<open>The engine and the cluster set\<close>

text \<open>Computing scores never touches the cluster set; a merge attempt that returns false
  leaves it as it was, and one that returns true has called \<^verbatim>\<open>Merge\<close> once, on a pair
  that the two nested enumerations produced.\<close>

lemma dist_h_clusterSet:
  "dist_h C L h i j = Inr (s, h1) \<Longrightarrow> clusterSet h1 = clusterSet h"
  by (auto simp: dist_h_def Let_def split: option.splits sum.splits prod.splits if_splits)

lemma snapshotDists_clusterSet:
  "snapshotDists C L i j ks h = Inr (diks, djks, h1) \<Longrightarrow> clusterSet h1 = clusterSet h"
proof (induction ks arbitrary: h diks djks)
  case Nil
  then show ?case by simp
next
  case (Cons k ks)
  from Cons.prems obtain dik ha djk hb xs ys where
    a: "dist_h C L h i k = Inr (dik, ha)" and b: "dist_h C L ha j k = Inr (djk, hb)"
    and c: "snapshotDists C L i j ks hb = Inr (xs, ys, h1)"
    by (auto split: sum.splits prod.splits)
  show ?case using Cons.IH[OF c] dist_h_clusterSet[OF a] dist_h_clusterSet[OF b] by simp
qed

lemma bestStep_pair: "snd (bestStep best pair score) = snd best \<or> snd (bestStep best pair score) = Some pair"
  by (simp add: bestStep_def)

lemma innerSearch_result:
  "innerSearch C L c1 cs2 st = Inr st1 \<Longrightarrow>
   clusterSet (snd st1) = clusterSet (snd st)
   \<and> (snd (fst st1) = snd (fst st) \<or> (\<exists>c2\<in>set cs2. snd (fst st1) = Some (c1, c2)))"
proof (induction cs2 arbitrary: st)
  case Nil
  then show ?case by simp
next
  case (Cons c2 cs2)
  from Cons.prems obtain score ha where
    a: "dist_h C L (snd st) c1 c2 = Inr (score, ha)"
    and b: "innerSearch C L c1 cs2 (bestStep (fst st) (c1, c2) score, ha) = Inr st1"
    by (auto split: sum.splits prod.splits)
  show ?case
    using Cons.IH[OF b] dist_h_clusterSet[OF a] bestStep_pair[of "fst st" "(c1, c2)" score]
    by auto
qed

lemma outerSearch_result:
  "outerSearch C L cs1 st = Inr st1 \<Longrightarrow>
   clusterSet (snd st1) = clusterSet (snd st)
   \<and> (snd (fst st1) = snd (fst st)
       \<or> (\<exists>c1\<in>set cs1. \<exists>c2\<in>set (EachCluster C (clusterSet (snd st)) c1). snd (fst st1) = Some (c1, c2)))"
proof (induction cs1 arbitrary: st)
  case Nil
  then show ?case by simp
next
  case (Cons c1 cs1)
  from Cons.prems obtain sta where
    a: "innerSearch C L c1 (EachCluster C (clusterSet (snd st)) c1) st = Inr sta"
    and b: "outerSearch C L cs1 sta = Inr st1"
    by (auto split: sum.splits)
  show ?case
    using Cons.IH[OF b] innerSearch_result[OF a] by auto
qed

lemma mergeAndUpdateAll_Merge:
  "mergeAndUpdateAll C L h i j = Inr h1 \<Longrightarrow>
   \<exists>ni nj. Merge C (clusterSet h) i j = Inr (clusterSet h1, ni, nj)"
  by (auto simp: mergeAndUpdateAll_def Let_def dest!: snapshotDists_clusterSet
           split: sum.splits prod.splits if_splits)

lemma prepareCaches_clusterSet: "clusterSet (prepareCaches L h) = clusterSet h"
  by (simp add: prepareCaches_def)

lemma bestPairSearch_result:
  "bestPairSearch C L h = Inr ((s, bp), h1) \<Longrightarrow>
   clusterSet h1 = clusterSet h
   \<and> (bp = None \<or> (\<exists>c1\<in>set (EachCluster C (clusterSet h) (- 1)).
                      \<exists>c2\<in>set (EachCluster C (clusterSet h) c1). bp = Some (c1, c2)))"
  using outerSearch_result[of C L "EachCluster C (clusterSet h) (- 1)" "((Fin MaxFloat64, None), h)" "((s, bp), h1)"]
  by (simp add: bestPairSearch_def)

lemma MergeNext_False:
  "MergeNext C chk L h = Inr (False, h1) \<Longrightarrow> clusterSet h1 = clusterSet h"
  by (auto simp: MergeNext_def prepareCaches_clusterSet dest!: bestPairSearch_result
           split: sum.splits prod.splits option.splits if_splits)

lemma MergeNext_True:
  assumes "MergeNext C chk L h = Inr (True, h1)"
  shows "\<exists>c1 c2 ni nj. c1 \<in> set (EachCluster C (clusterSet h) (- 1))
           \<and> c2 \<in> set (EachCluster C (clusterSet h) c1)
           \<and> Merge C (clusterSet h) c1 c2 = Inr (clusterSet h1, ni, nj)"
proof -
  from assms obtain s c1 c2 ha where
    a: "bestPairSearch C L (prepareCaches L h) = Inr ((s, Some (c1, c2)), ha)"
    and b: "(distCache ha = None \<and> (\<exists>cs1 ni nj. Merge C (clusterSet ha) c1 c2 = Inr (cs1, ni, nj) \<and> h1 = ha\<lparr>clusterSet := cs1\<rparr>))
            \<or> (distCache ha \<noteq> None \<and> mergeAndUpdateAll C L ha c1 c2 = Inr h1)"
    by (auto simp: MergeNext_def split: sum.splits prod.splits option.splits if_splits)
  have cs: "clusterSet ha = clusterSet h"
    and mem: "c1 \<in> set (EachCluster C (clusterSet h) (- 1))" "c2 \<in> set (EachCluster C (clusterSet h) c1)"
    using bestPairSearch_result[OF a] by (auto simp: prepareCaches_clusterSet)
  from b have "\<exists>ni nj. Merge C (clusterSet ha) c1 c2 = Inr (clusterSet h1, ni, nj)"
    using mergeAndUpdateAll_Merge[of C L ha c1 c2 h1] by auto
  then show ?thesis using cs mem by auto
qed

text \<open>
  What \<^verbatim>\<open>dist\<close> does with a cache: an entry stored under the ordered pair is returned as
  it is, and when there is none the score is computed from the items and stored under the
  ordered pair.
\<close>

lemma dist_h_hit:
  assumes "distCache h = Some m" "m (min i j) = Some row" "row (max i j) = Some s"
  shows "dist_h C L h i j = Inr (s, h)"
proof (cases "i > j")
  case True
  then have mm: "min i j = j" "max i j = i" by simp_all
  show ?thesis using assms True unfolding mm by (simp add: dist_h_def)
next
  case False
  then have mm: "min i j = i" "max i j = j" by simp_all
  show ?thesis using assms False unfolding mm by (simp add: dist_h_def)
qed


lemma dist_h_miss_ordered:
  assumes "distCache h = Some m" "i \<le> j"
    and "m i = None \<or> (\<exists>row. m i = Some row \<and> row j = None)"
    and "linkageScore C L (clusterSet h) (linkageType h) i j = Inr (s, l1)"
  shows "dist_h C L h i j
           = Inr (s, h\<lparr>linkageType := l1,
                       distCache := Some (m(i \<mapsto> (case m i of None \<Rightarrow> Map.empty | Some row \<Rightarrow> row)(j \<mapsto> s)))\<rparr>)"
proof (cases "m i")
  case None
  then show ?thesis using assms(1,2,4)
    by (simp add: dist_h_def cacheStore_def)
next
  case (Some row)
  then have "row j = None" using assms(3) by simp
  then show ?thesis using Some assms(1,2,4)
    by (simp add: dist_h_def cacheStore_def)
qed

lemma dist_h_miss:
  assumes "distCache h = Some m"
    and "m (min i j) = None \<or> (\<exists>row. m (min i j) = Some row \<and> row (max i j) = None)"
    and "linkageScore C L (clusterSet h) (linkageType h) (min i j) (max i j) = Inr (s, l1)"
  shows "dist_h C L h i j
           = Inr (s, h\<lparr>linkageType := l1,
                       distCache := Some (m(min i j \<mapsto>
                          (case m (min i j) of None \<Rightarrow> Map.empty | Some row \<Rightarrow> row)(max i j \<mapsto> s)))\<rparr>)"
proof (cases "i > j")
  case False
  then have mm: "min i j = i" "max i j = j" by simp_all
  show ?thesis using dist_h_miss_ordered[of h m i j C L s l1] assms False unfolding mm by simp
next
  case True
  then have mm: "min i j = j" "max i j = i" by simp_all
  have sw: "dist_h C L h i j = dist_h C L h j i"
    using True assms(1) by (simp add: dist_h_def)
  show ?thesis using dist_h_miss_ordered[of h m j i C L s l1] assms True unfolding mm sw by simp
qed

text \<open>
  C7. When the best-pair search of an attempt ends with a candidate pair and the checker
  returns false for it, \<^verbatim>\<open>MergeNext\<close> returns false with the cluster set exactly as it
  was before the attempt (\<^verbatim>\<open>Merge\<close> is not called), and the loop of \<^verbatim>\<open>Cluster\<close> stops
  there. A veto on the first attempt of a run leaves the data source as it was given.
\<close>

theorem checker_veto_stops_run:
  assumes "bestPairSearch C L (prepareCaches L h) = Inr ((bestScore, Some (c1, c2)), h1)"
    and "\<not> chk C (clusterSet h1) c1 c2 bestScore"
  shows "MergeNext C chk L h = Inr (False, h1) \<and> clusterSet h1 = clusterSet h
         \<and> (\<exists>h2. Cluster_loop (Suc n) C chk L h = Some (Inr h2) \<and> clusterSet h2 = clusterSet h)"
proof -
  have m: "MergeNext C chk L h = Inr (False, h1)"
    using assms by (simp add: MergeNext_def)
  have cs: "clusterSet h1 = clusterSet h"
    using MergeNext_False[OF m] .
  have "\<exists>h2. Cluster_loop (Suc n) C chk L h = Some (Inr h2) \<and> clusterSet h2 = clusterSet h"
    using m cs by simp
  then show ?thesis using m cs by simp
qed

theorem checker_veto_stops_run_witness:
  "\<exists>h2. Cluster 1 DistanceMapClusterSet abcSet (Threshold (Fin (- 1))) maxLinkage_methods CompleteLinkage
          = Some (Inr h2) \<and> clusterSet h2 = abcSet"
proof -
  have "\<exists>h1. bestPairSearch DistanceMapClusterSet maxLinkage_methods
               (prepareCaches (maxLinkage_methods :: (maxLinkage, string) LinkageType)
                  (newHClustering abcSet CompleteLinkage))
             = Inr ((Fin 0, Some (0, 1)), h1)"
    by (simp add: abcSet_def abcMap_def run_defs)
  then obtain h1 where a: "bestPairSearch DistanceMapClusterSet maxLinkage_methods
               (prepareCaches (maxLinkage_methods :: (maxLinkage, string) LinkageType)
                  (newHClustering abcSet CompleteLinkage))
             = Inr ((Fin 0, Some (0, 1)), h1)"
    by blast
  have v: "\<not> Threshold (Fin (- 1)) DistanceMapClusterSet (clusterSet h1) 0 1 (Fin 0)"
    by (simp add: Threshold_def)
  from checker_veto_stops_run[where chk = "Threshold (Fin (- 1))" and n = 0, OF a v] show ?thesis
    by (simp add: Cluster_def newHClustering_def)
qed

subsection \<open>The cluster count of the distance map\<close>

lemma distMap_EachCluster_mem:
  "c \<in> set (EachCluster DistanceMapClusterSet d start) \<Longrightarrow> start < c \<and> c < int (length (clusters d))"
  by (auto simp: DistanceMapClusterSet_def distMap_EachCluster_def split: if_splits)

lemma distMap_Merge_length:
  "Merge DistanceMapClusterSet d i j = Inr (d1, ni, nj) \<Longrightarrow> 0 \<le> i \<Longrightarrow> i < j \<Longrightarrow>
   int (length (clusters d1)) = int (length (clusters d)) - 1"
  by (auto simp: DistanceMapClusterSet_def distMap_Merge_def Let_def split: if_splits)

lemma distMap_Count: "Count DistanceMapClusterSet d = int (length (clusters d))"
  by (simp add: DistanceMapClusterSet_def distMap_Count_def)

lemma distMap_MergeNext_True:
  assumes "MergeNext DistanceMapClusterSet chk L h = Inr (True, h1)"
  shows "Count DistanceMapClusterSet (clusterSet h1) = Count DistanceMapClusterSet (clusterSet h) - 1"
proof -
  from MergeNext_True[OF assms] obtain c1 c2 ni nj where
    a: "c1 \<in> set (EachCluster DistanceMapClusterSet (clusterSet h) (- 1))"
    and b: "c2 \<in> set (EachCluster DistanceMapClusterSet (clusterSet h) c1)"
    and c: "Merge DistanceMapClusterSet (clusterSet h) c1 c2 = Inr (clusterSet h1, ni, nj)"
    by blast
  have "0 \<le> c1" "c1 < c2"
    using distMap_EachCluster_mem[OF a] distMap_EachCluster_mem[OF b] by simp_all
  then show ?thesis using distMap_Merge_length[OF c] by (simp add: distMap_Count)
qed

lemma distMap_Cluster_loop_Count:
  "Cluster_loop n DistanceMapClusterSet chk L h = Some (Inr h1) \<Longrightarrow>
   Count DistanceMapClusterSet (clusterSet h1) \<le> Count DistanceMapClusterSet (clusterSet h)"
proof (induction n arbitrary: h)
  case 0
  then show ?case by (simp split: if_splits)
next
  case (Suc n)
  show ?case
  proof (cases "Count DistanceMapClusterSet (clusterSet h) > 1")
    case False
    then show ?thesis using Suc.prems by simp
  next
    case True
    then obtain merged ha where m: "MergeNext DistanceMapClusterSet chk L h = Inr (merged, ha)"
      using Suc.prems by (auto split: sum.splits)
    show ?thesis
    proof (cases merged)
      case True
      then have "Cluster_loop n DistanceMapClusterSet chk L ha = Some (Inr h1)"
        using Suc.prems m \<open>Count DistanceMapClusterSet (clusterSet h) > 1\<close> by simp
      from Suc.IH[OF this] distMap_MergeNext_True[of chk L h ha] m True
      show ?thesis by simp
    next
      case False
      then have "h1 = ha" using Suc.prems m \<open>Count DistanceMapClusterSet (clusterSet h) > 1\<close> by simp
      then show ?thesis using MergeNext_False[of DistanceMapClusterSet chk L h ha] m False by simp
    qed
  qed
qed

lemma distMap_Cluster_loop_returns:
  "Count DistanceMapClusterSet (clusterSet h) \<le> int n + 1 \<Longrightarrow>
   \<exists>r. Cluster_loop n DistanceMapClusterSet chk L h = Some r"
proof (induction n arbitrary: h)
  case 0
  then show ?case by simp
next
  case (Suc n)
  show ?case
  proof (cases "MergeNext DistanceMapClusterSet chk L h")
    case (Inl e)
    then show ?thesis by simp
  next
    case (Inr r)
    obtain merged ha where r: "r = (merged, ha)" by (cases r)
    show ?thesis
    proof (cases merged)
      case True
      have "Count DistanceMapClusterSet (clusterSet ha) \<le> int n + 1"
        using distMap_MergeNext_True[of chk L h ha] Inr r True Suc.prems by simp
      from Suc.IH[OF this] show ?thesis using Inr r True by simp
    next
      case False
      then show ?thesis using Inr r by simp
    qed
  qed
qed

text \<open>
  C6. On the distance map, with any linkage type and any checker: a \<^verbatim>\<open>MergeNext\<close> that
  returns true leaves \<^verbatim>\<open>Count()\<close> smaller by exactly one, one that returns false leaves
  the cluster set unchanged, and the count at the end of a run is never above the count
  at its start. The loop of \<^verbatim>\<open>Cluster\<close> returns within \<^verbatim>\<open>Count()\<close> attempts.
\<close>

theorem count_decreases_by_one:
  "(MergeNext DistanceMapClusterSet chk L h = Inr (True, h1) \<longrightarrow>
      Count DistanceMapClusterSet (clusterSet h1) = Count DistanceMapClusterSet (clusterSet h) - 1)
   \<and> (MergeNext DistanceMapClusterSet chk L h = Inr (False, h1) \<longrightarrow> clusterSet h1 = clusterSet h)
   \<and> (Cluster_loop n DistanceMapClusterSet chk L h = Some (Inr h2) \<longrightarrow>
      Count DistanceMapClusterSet (clusterSet h2) \<le> Count DistanceMapClusterSet (clusterSet h))
   \<and> (\<exists>r. Cluster_loop (nat (Count DistanceMapClusterSet (clusterSet h))) DistanceMapClusterSet chk L h = Some r)"
proof (intro conjI impI)
  show "\<exists>r. Cluster_loop (nat (Count DistanceMapClusterSet (clusterSet h))) DistanceMapClusterSet chk L h = Some r"
    by (rule distMap_Cluster_loop_returns) (simp add: distMap_Count)
qed (auto dest: distMap_MergeNext_True MergeNext_False distMap_Cluster_loop_Count)

theorem count_decreases_by_one_witness:
  "\<exists>h1. MergeNext DistanceMapClusterSet (Threshold (Fin 1)) maxLinkage_methods (newHClustering abcSet CompleteLinkage)
          = Inr (True, h1)
        \<and> Count DistanceMapClusterSet (clusterSet (newHClustering abcSet CompleteLinkage)) = 3
        \<and> Count DistanceMapClusterSet (clusterSet h1) = 2"
proof -
  have "\<exists>h1. MergeNext DistanceMapClusterSet (Threshold (Fin 1)) maxLinkage_methods
               (newHClustering abcSet CompleteLinkage) = Inr (True, h1)"
    by (simp add: abcSet_def abcMap_def run_defs)
  then obtain h1 where a: "MergeNext DistanceMapClusterSet (Threshold (Fin 1)) maxLinkage_methods
               (newHClustering abcSet CompleteLinkage) = Inr (True, h1)"
    by blast
  have c: "Count DistanceMapClusterSet (clusterSet (newHClustering abcSet CompleteLinkage)) = 3"
    by (simp add: distMap_Count newHClustering_def abcSet_clusters)
  from count_decreases_by_one[of "Threshold (Fin 1)" maxLinkage_methods "newHClustering abcSet CompleteLinkage" h1]
  show ?thesis using a c by auto
qed

subsection \<open>The built-in linkage types do not panic on the distance map\<close>

text \<open>
  With a linkage type that is safe in the sense above, no step of \<^verbatim>\<open>MergeNext\<close> on a
  distance map panics: the indices come from the enumerations and are in range, the
  snapshot loop of \<^verbatim>\<open>mergeAndUpdateAll\<close> makes every cache row that the later writes
  need, and \<^verbatim>\<open>lwCache\<close> has four entries. So \<^verbatim>\<open>Cluster\<close> returns, within as many attempts
  as there are clusters, for complete, single and both average linkages, whatever the
  checker is.
\<close>

lemma safe_maxLinkage: "safeLinkage maxLinkage_methods (\<lambda>l. True)"
  by (simp add: safeLinkage_def maxLinkage_methods_def maxLinkage_Put_def)

lemma safe_minLinkage: "safeLinkage minLinkage_methods (\<lambda>l. True)"
  by (simp add: safeLinkage_def minLinkage_methods_def minLinkage_Put_def)

lemma safe_avgLinkage: "safeLinkage avgLinkage_methods avgReady"
  by (auto simp: safeLinkage_def avg_sel avgReady_def avgLinkage_Reset_def avgLinkage_Put_def
        avgLinkage_LWParams_def Let_def)

lemma putEach_safe:
  "safeLinkage L ready \<Longrightarrow> ready l \<Longrightarrow> \<exists>l1. putEach L a bds l = Inr l1 \<and> ready l1"
proof (induction bds arbitrary: l)
  case Nil
  then show ?case by simp
next
  case (Cons bd bds)
  obtain b d where bd: "bd = (b, d)" by (cases bd)
  from Cons.prems obtain l1 where s: "Put L l a b d = Inr l1" "ready l1"
    unfolding safeLinkage_def by blast
  from Cons.IH[OF Cons.prems(1) s(2)] show ?case using s(1) bd by simp
qed

lemma distMap_EachItem_valid:
  "0 \<le> c \<Longrightarrow> c < int (length (clusters d)) \<Longrightarrow>
   EachItem DistanceMapClusterSet d c = Inr (clusters d ! nat c)"
  by (simp add: DistanceMapClusterSet_def distMap_EachItem_def idx_def)

lemma eachItemPut_safe:
  "safeLinkage L ready \<Longrightarrow> ready l \<Longrightarrow> 0 \<le> j \<Longrightarrow> j < int (length (clusters d)) \<Longrightarrow>
   \<exists>l1. eachItemPut DistanceMapClusterSet L d i j as l = Inr l1 \<and> ready l1"
proof (induction as arbitrary: l)
  case Nil
  then show ?case by simp
next
  case (Cons a as)
  have e: "EachItemDistance DistanceMapClusterSet d i j a
             = Inr (map (\<lambda>item2. (item2, Distance DistanceMapClusterSet d i j a item2)) (clusters d ! nat j))"
    using Cons.prems(3,4) by (simp add: EachItemDistance_def distMap_EachItem_valid)
  from putEach_safe[OF Cons.prems(1,2)] obtain l1 where
    p: "putEach L a (map (\<lambda>item2. (item2, Distance DistanceMapClusterSet d i j a item2)) (clusters d ! nat j)) l = Inr l1"
    and r: "ready l1" by blast
  from Cons.IH[OF Cons.prems(1) r Cons.prems(3,4)] show ?case using e p by simp
qed

lemma linkageScore_safe:
  assumes "safeLinkage L ready" "0 \<le> i" "i < int (length (clusters d))" "0 \<le> j" "j < int (length (clusters d))"
  shows "\<exists>s l1. linkageScore DistanceMapClusterSet L d l i j = Inr (s, l1)"
proof -
  have r: "ready (Reset L l)" using assms(1) by (simp add: safeLinkage_def)
  from eachItemPut_safe[OF assms(1) r assms(4,5)] obtain l1 where
    "eachItemPut DistanceMapClusterSet L d i j (clusters d ! nat i) (Reset L l) = Inr l1" by blast
  then show ?thesis using assms(2,3) by (simp add: linkageScore_def distMap_EachItem_valid)
qed

lemma cacheStore_safe:
  "hasRow c x \<Longrightarrow> \<exists>c1. cacheStore c x y v = Inr c1 \<and> (\<forall>z. hasRow c1 z = hasRow c z)"
  by (auto simp: hasRow_def cacheStore_def split: option.splits)

lemma dist_h_safe:
  assumes "safeLinkage L ready" "0 \<le> i" "i < int (length (clusters (clusterSet h)))"
    "0 \<le> j" "j < int (length (clusters (clusterSet h)))"
  shows "\<exists>s h1. dist_h DistanceMapClusterSet L h i j = Inr (s, h1)
           \<and> clusterSet h1 = clusterSet h \<and> lwCache h1 = lwCache h
           \<and> (distCache h = None \<longrightarrow> distCache h1 = None)
           \<and> (distCache h \<noteq> None \<longrightarrow> distCache h1 \<noteq> None \<and> hasRow (distCache h1) (min i j)
                 \<and> (\<forall>z. hasRow (distCache h) z \<longrightarrow> hasRow (distCache h1) z))"
proof -
  define i' where "i' = (if distCache h \<noteq> None \<and> i > j then j else i)"
  define j' where "j' = (if distCache h \<noteq> None \<and> i > j then i else j)"
  have v: "0 \<le> i'" "i' < int (length (clusters (clusterSet h)))" "0 \<le> j'" "j' < int (length (clusters (clusterSet h)))"
    using assms(2-5) by (auto simp: i'_def j'_def)
  have mn: "distCache h \<noteq> None \<Longrightarrow> i' = min i j" by (auto simp: i'_def)
  from linkageScore_safe[OF assms(1) v] obtain s l1 where
    ls: "linkageScore DistanceMapClusterSet L (clusterSet h) (linkageType h) i' j' = Inr (s, l1)" by blast
  show ?thesis
    using ls mn unfolding dist_h_def Let_def i'_def[symmetric] j'_def[symmetric]
    by (auto simp: hasRow_def cacheStore_def split: option.splits)
qed


lemma snapshotDists_safe:
  assumes "safeLinkage L ready" "0 \<le> i" "i < int (length (clusters (clusterSet h)))"
    "0 \<le> j" "j < int (length (clusters (clusterSet h)))"
    "\<forall>k\<in>set ks. 0 \<le> k \<and> k < int (length (clusters (clusterSet h)))"
  shows "\<exists>diks djks h1. snapshotDists DistanceMapClusterSet L i j ks h = Inr (diks, djks, h1)
           \<and> length diks = length ks \<and> length djks = length ks
           \<and> clusterSet h1 = clusterSet h \<and> lwCache h1 = lwCache h
           \<and> (distCache h \<noteq> None \<longrightarrow> distCache h1 \<noteq> None
                 \<and> (\<forall>k\<in>set ks. hasRow (distCache h1) (min i k) \<and> hasRow (distCache h1) (min j k))
                 \<and> (\<forall>z. hasRow (distCache h) z \<longrightarrow> hasRow (distCache h1) z))"
  using assms(2-6)
proof (induction ks arbitrary: h)
  case Nil
  then show ?case by simp
next
  case (Cons k ks)
  have k: "0 \<le> k" "k < int (length (clusters (clusterSet h)))" using Cons.prems(5) by simp_all
  from dist_h_safe[OF assms(1) Cons.prems(1,2) k] obtain dik ha where
    a: "dist_h DistanceMapClusterSet L h i k = Inr (dik, ha)"
    and a1: "clusterSet ha = clusterSet h" "lwCache ha = lwCache h"
    and a2: "distCache h \<noteq> None \<longrightarrow> distCache ha \<noteq> None \<and> hasRow (distCache ha) (min i k)
                 \<and> (\<forall>z. hasRow (distCache h) z \<longrightarrow> hasRow (distCache ha) z)"
    by blast
  have ja: "0 \<le> j" "j < int (length (clusters (clusterSet ha)))"
    and ka: "0 \<le> k" "k < int (length (clusters (clusterSet ha)))"
    using Cons.prems(3,4) k a1 by simp_all
  from dist_h_safe[OF assms(1) ja ka] obtain djk hb where
    b: "dist_h DistanceMapClusterSet L ha j k = Inr (djk, hb)"
    and b1: "clusterSet hb = clusterSet ha" "lwCache hb = lwCache ha"
    and b2: "distCache ha \<noteq> None \<longrightarrow> distCache hb \<noteq> None \<and> hasRow (distCache hb) (min j k)
                 \<and> (\<forall>z. hasRow (distCache ha) z \<longrightarrow> hasRow (distCache hb) z)"
    by blast
  have pre: "0 \<le> i" "i < int (length (clusters (clusterSet hb)))" "0 \<le> j" "j < int (length (clusters (clusterSet hb)))"
    "\<forall>k\<in>set ks. 0 \<le> k \<and> k < int (length (clusters (clusterSet hb)))"
    using Cons.prems a1 b1 by simp_all
  from Cons.IH[OF pre] obtain diks djks h1 where
    c: "snapshotDists DistanceMapClusterSet L i j ks hb = Inr (diks, djks, h1)"
    and c1: "length diks = length ks" "length djks = length ks" "clusterSet h1 = clusterSet hb" "lwCache h1 = lwCache hb"
    and c2: "distCache hb \<noteq> None \<longrightarrow> distCache h1 \<noteq> None
                 \<and> (\<forall>k\<in>set ks. hasRow (distCache h1) (min i k) \<and> hasRow (distCache h1) (min j k))
                 \<and> (\<forall>z. hasRow (distCache hb) z \<longrightarrow> hasRow (distCache h1) z)"
    by blast
  have res: "snapshotDists DistanceMapClusterSet L i j (k # ks) h = Inr (dik # diks, djk # djks, h1)"
    using a b c by simp
  show ?case
    using res c1 a1 b1 a2 b2 c2 by auto
qed

lemma moveCached_safe:
  "\<forall>k\<in>set ks. k \<noteq> nj \<longrightarrow> hasRow c (min k r) \<Longrightarrow>
   \<exists>c1. moveCached r nj ks c = Inr c1 \<and> (\<forall>z. hasRow c1 z = hasRow c z)"
proof (induction ks arbitrary: c)
  case Nil
  then show ?case by simp
next
  case (Cons k ks)
  show ?case
  proof (cases "k = nj")
    case True
    then show ?thesis using Cons.IH[of c] Cons.prems by simp
  next
    case False
    then have "hasRow c (min k r)" using Cons.prems by simp
    then have row: "hasRow c (if k > r then r else k)" by (auto simp: min_def split: if_splits)
    from cacheStore_safe[OF row] obtain c1 where
      st: "cacheStore c (if k > r then r else k) (if k > r then k else r)
             (cacheRead c (if k > nj then nj else k) (if k > nj then k else nj)) = Inr c1"
      and rows: "\<forall>z. hasRow c1 z = hasRow c z" by blast
    have "\<forall>k\<in>set ks. k \<noteq> nj \<longrightarrow> hasRow c1 (min k r)" using Cons.prems rows by simp
    from Cons.IH[OF this] show ?thesis using st rows False by (simp add: Let_def)
  qed
qed

lemma removeUnused_rows:
  "z \<noteq> nj \<Longrightarrow> hasRow (removeUnused nj ks c) z = hasRow c z"
proof (induction ks arbitrary: c)
  case Nil
  then show ?case by simp
next
  case (Cons k ks)
  show ?case using Cons.IH[OF Cons.prems] Cons.prems
    by (auto simp: hasRow_def split: option.splits)
qed

lemma idx_valid: "0 \<le> k \<Longrightarrow> k < int (length xs) \<Longrightarrow> idx xs k = Inr (xs ! nat k)"
  by (simp add: idx_def)

lemma lwUpdate_safe:
  assumes "length lw = 4"
  shows "\<forall>k\<in>set ks. 0 \<le> k \<and> k < int (length diks) \<and> k < int (length djks) \<and> hasRow c (min ni k) \<Longrightarrow>
   \<exists>c1. lwUpdate lw diks djks origDist ni ks c = Inr c1"
proof (induction ks arbitrary: c)
  case Nil
  then show ?case by simp
next
  case (Cons k ks)
  have k: "0 \<le> k" "k < int (length diks)" "k < int (length djks)" and row: "hasRow c (min ni k)"
    using Cons.prems by simp_all
  have lw: "idx lw 0 = Inr (lw ! 0)" "idx lw 1 = Inr (lw ! 1)" "idx lw 2 = Inr (lw ! 2)" "idx lw 3 = Inr (lw ! 3)"
    using assms by (simp_all add: idx_def)
  have step: "\<exists>c2. (case cacheStore c x y v of Inl e \<Rightarrow> Inl e
                    | Inr c1 \<Rightarrow> lwUpdate lw diks djks origDist ni ks c1) = Inr c2"
    if xy: "x = min ni k" for x y v
  proof -
    have "hasRow c x" using row xy by simp
    from cacheStore_safe[OF this] obtain c1 where
      s1: "cacheStore c x y v = Inr c1" and rows: "\<forall>z. hasRow c1 z = hasRow c z" by blast
    have "\<forall>k\<in>set ks. 0 \<le> k \<and> k < int (length diks) \<and> k < int (length djks) \<and> hasRow c1 (min ni k)"
      using Cons.prems rows by simp
    from Cons.IH[OF this] show ?thesis using s1 by simp
  qed
  show ?case
  proof (cases "ni < k")
    case True
    then have "ni = min ni k" by simp
    from step[OF this] show ?thesis using True lw k by (simp add: idx_valid Let_def)
  next
    case False
    then have "k = min ni k" by simp
    from step[OF this] show ?thesis using False lw k by (simp add: idx_valid Let_def)
  qed
qed


lemma distMap_Merge_valid:
  "0 \<le> i \<Longrightarrow> i < j \<Longrightarrow> j < int (length (clusters d)) \<Longrightarrow>
   \<exists>d1. Merge DistanceMapClusterSet d i j = Inr (d1, i, int (length (clusters d)) - 1)"
  by (simp add: DistanceMapClusterSet_def distMap_Merge_def Let_def)

lemma mergeAndUpdateAll_safe:
  assumes safe: "safeLinkage L ready"
    and i: "0 \<le> i" "i < j" and j: "j < int (length (clusters (clusterSet h)))"
    and cache: "distCache h \<noteq> None" and lw: "length (lwCache h) = 4"
  shows "\<exists>h1. mergeAndUpdateAll DistanceMapClusterSet L h i j = Inr h1"
proof -
  define n where "n = int (length (clusters (clusterSet h)))"
  have cnt: "Count DistanceMapClusterSet (clusterSet h) = n"
    by (simp add: n_def distMap_Count)
  have iv: "0 \<le> i" "i < n" "0 \<le> j" "j < n" using i j by (simp_all add: n_def)
  have ks: "\<forall>k\<in>set [0 .. n - 1]. 0 \<le> k \<and> k < int (length (clusters (clusterSet h)))"
    by (simp add: n_def)
  from snapshotDists_safe[OF safe iv(1) iv(2)[unfolded n_def] iv(3) iv(4)[unfolded n_def] ks]
  obtain diks djks h1 where
    snap: "snapshotDists DistanceMapClusterSet L i j [0 .. n - 1] h = Inr (diks, djks, h1)"
    and len: "length diks = length [0 .. n - 1]" "length djks = length [0 .. n - 1]"
    and fr: "clusterSet h1 = clusterSet h" "lwCache h1 = lwCache h"
    and rows: "\<forall>k\<in>set [0 .. n - 1]. hasRow (distCache h1) (min i k) \<and> hasRow (distCache h1) (min j k)"
    using cache by blast
  have len': "int (length diks) = n" "int (length djks) = n" using len iv by simp_all
  have od: "idx diks j = Inr (diks ! nat j)" using iv len' by (simp add: idx_def)
  from distMap_Merge_valid[OF i j] obtain d1 where
    mg: "Merge DistanceMapClusterSet (clusterSet h1) i j = Inr (d1, i, n - 1)"
    using fr by (auto simp: n_def)
  have rowi: "hasRow (distCache h1) (min i k)" and rowj: "hasRow (distCache h1) (min j k)"
    if "0 \<le> k" "k \<le> n - 1" for k
    using rows that by simp_all
  have "\<exists>c2. ((n - 1 = j \<and> c2 = distCache h1)
               \<or> (n - 1 \<noteq> j \<and> (\<exists>c1. moveCached j (n - 1) [0 .. n - 1] (distCache h1) = Inr c1
                                    \<and> c2 = removeUnused (n - 1) [0 .. n - 1] c1)))
             \<and> (\<forall>z. z \<noteq> n - 1 \<longrightarrow> hasRow c2 z = hasRow (distCache h1) z)"
  proof (cases "n - 1 \<noteq> j")
    case False
    then show ?thesis by simp
  next
    case True
    have "\<forall>k\<in>set [0 .. n - 1]. k \<noteq> n - 1 \<longrightarrow> hasRow (distCache h1) (min k j)"
      using rowj by (simp add: min.commute)
    from moveCached_safe[OF this] obtain c1 where
      mv: "moveCached j (n - 1) [0 .. n - 1] (distCache h1) = Inr c1"
      and r1: "\<forall>z. hasRow c1 z = hasRow (distCache h1) z" by blast
    show ?thesis using True mv r1 by (simp add: removeUnused_rows)
  qed
  then obtain c2 where
    rep: "(n - 1 = j \<and> c2 = distCache h1)
               \<or> (n - 1 \<noteq> j \<and> (\<exists>c1. moveCached j (n - 1) [0 .. n - 1] (distCache h1) = Inr c1
                                    \<and> c2 = removeUnused (n - 1) [0 .. n - 1] c1))"
    and r2: "\<forall>z. z \<noteq> n - 1 \<longrightarrow> hasRow c2 z = hasRow (distCache h1) z" by blast
  have "\<forall>k\<in>set [0 .. n - 2]. 0 \<le> k \<and> k < int (length diks) \<and> k < int (length djks) \<and> hasRow c2 (min i k)"
  proof
    fix k assume "k \<in> set [0 .. n - 2]"
    then have k: "0 \<le> k" "k \<le> n - 2" by simp_all
    have "min i k \<noteq> n - 1" using k by simp
    then have "hasRow c2 (min i k)" using r2 rowi[of k] k by simp
    then show "0 \<le> k \<and> k < int (length diks) \<and> k < int (length djks) \<and> hasRow c2 (min i k)"
      using k len' by simp
  qed
  from lwUpdate_safe[OF _ this, of "lwCache h1" "diks ! nat j"] obtain c3 where
    up: "lwUpdate (lwCache h1) diks djks (diks ! nat j) i [0 .. n - 2] c2 = Inr c3"
    using lw fr by auto
  have ij: "i \<noteq> j" using i by simp
  show ?thesis
  proof (cases "n - 1 = j")
    case True
    then have "c2 = distCache h1" using rep by simp
    then show ?thesis
      unfolding mergeAndUpdateAll_def cnt Let_def
      using snap od mg up True by simp
  next
    case False
    then obtain c1 where "moveCached j (n - 1) [0 .. n - 1] (distCache h1) = Inr c1"
      "c2 = removeUnused (n - 1) [0 .. n - 1] c1" using rep by blast
    then show ?thesis
      unfolding mergeAndUpdateAll_def cnt Let_def
      using snap od mg up False ij by simp
  qed
qed


lemma sameFrame_refl: "sameFrame h h"
  by (simp add: sameFrame_def)

lemma sameFrame_trans: "sameFrame h h1 \<Longrightarrow> sameFrame h1 h2 \<Longrightarrow> sameFrame h h2"
  by (simp add: sameFrame_def)

lemma dist_h_frame:
  assumes "safeLinkage L ready" "0 \<le> i" "i < int (length (clusters (clusterSet h)))"
    "0 \<le> j" "j < int (length (clusters (clusterSet h)))"
  shows "\<exists>s h1. dist_h DistanceMapClusterSet L h i j = Inr (s, h1) \<and> sameFrame h h1"
proof -
  from dist_h_safe[OF assms] obtain s h1 where
    a: "dist_h DistanceMapClusterSet L h i j = Inr (s, h1)" "clusterSet h1 = clusterSet h" "lwCache h1 = lwCache h"
    and b: "distCache h = None \<longrightarrow> distCache h1 = None" "distCache h \<noteq> None \<longrightarrow> distCache h1 \<noteq> None"
    by (elim exE conjE) auto
  have "(distCache h1 = None) = (distCache h = None)" using b by blast
  then show ?thesis using a by (auto simp: sameFrame_def)
qed

lemma innerSearch_safe:
  assumes "safeLinkage L ready"
  shows "0 \<le> c1 \<Longrightarrow> c1 < int (length (clusters (clusterSet (snd st)))) \<Longrightarrow>
    \<forall>c2\<in>set cs2. 0 \<le> c2 \<and> c2 < int (length (clusters (clusterSet (snd st)))) \<Longrightarrow>
    \<exists>st1. innerSearch DistanceMapClusterSet L c1 cs2 st = Inr st1 \<and> sameFrame (snd st) (snd st1)"
proof (induction cs2 arbitrary: st)
  case Nil
  then show ?case by (simp add: sameFrame_refl)
next
  case (Cons c2 cs2)
  have c2: "0 \<le> c2" "c2 < int (length (clusters (clusterSet (snd st))))" using Cons.prems(3) by simp_all
  from dist_h_frame[OF assms Cons.prems(1,2) c2] obtain score ha where
    a: "dist_h DistanceMapClusterSet L (snd st) c1 c2 = Inr (score, ha)" and f: "sameFrame (snd st) ha"
    by blast
  define st' where "st' = (bestStep (fst st) (c1, c2) score, ha)"
  have cs: "clusterSet (snd st') = clusterSet (snd st)" using f by (simp add: st'_def sameFrame_def)
  have pre: "0 \<le> c1" "c1 < int (length (clusters (clusterSet (snd st'))))"
    "\<forall>c2\<in>set cs2. 0 \<le> c2 \<and> c2 < int (length (clusters (clusterSet (snd st'))))"
    using Cons.prems cs by simp_all
  from Cons.IH[OF pre] obtain st1 where
    b: "innerSearch DistanceMapClusterSet L c1 cs2 st' = Inr st1" and g: "sameFrame (snd st') (snd st1)"
    by blast
  have "sameFrame (snd st) (snd st1)" using sameFrame_trans[OF f] g by (simp add: st'_def)
  then show ?case using a b by (simp add: st'_def)
qed

lemma outerSearch_safe:
  assumes "safeLinkage L ready"
  shows "\<forall>c1\<in>set cs1. 0 \<le> c1 \<and> c1 < int (length (clusters (clusterSet (snd st)))) \<Longrightarrow>
    \<exists>st1. outerSearch DistanceMapClusterSet L cs1 st = Inr st1 \<and> sameFrame (snd st) (snd st1)"
proof (induction cs1 arbitrary: st)
  case Nil
  then show ?case by (simp add: sameFrame_refl)
next
  case (Cons c1 cs1)
  have c1: "0 \<le> c1" "c1 < int (length (clusters (clusterSet (snd st))))" using Cons.prems by simp_all
  have inner: "\<forall>c2\<in>set (EachCluster DistanceMapClusterSet (clusterSet (snd st)) c1).
                 0 \<le> c2 \<and> c2 < int (length (clusters (clusterSet (snd st))))"
  proof
    fix c2 assume "c2 \<in> set (EachCluster DistanceMapClusterSet (clusterSet (snd st)) c1)"
    from distMap_EachCluster_mem[OF this] show "0 \<le> c2 \<and> c2 < int (length (clusters (clusterSet (snd st))))"
      using c1 by simp
  qed
  from innerSearch_safe[OF assms c1 inner] obtain sta where
    a: "innerSearch DistanceMapClusterSet L c1 (EachCluster DistanceMapClusterSet (clusterSet (snd st)) c1) st
          = Inr sta" and f: "sameFrame (snd st) (snd sta)" by blast
  have "\<forall>c1\<in>set cs1. 0 \<le> c1 \<and> c1 < int (length (clusters (clusterSet (snd sta))))"
    using Cons.prems f by (simp add: sameFrame_def)
  from Cons.IH[OF this] obtain st1 where
    b: "outerSearch DistanceMapClusterSet L cs1 sta = Inr st1" and g: "sameFrame (snd sta) (snd st1)"
    by blast
  show ?case using a b sameFrame_trans[OF f g] by simp
qed

lemma MergeNext_safe:
  assumes "safeLinkage L ready"
  shows "\<exists>r. MergeNext DistanceMapClusterSet chk L h = Inr r"
proof -
  define h0 where "h0 = prepareCaches L h"
  have lw0: "length (lwCache h0) = 4"
    using assms by (simp add: h0_def prepareCaches_def safeLinkage_def)
  have "\<forall>c1\<in>set (EachCluster DistanceMapClusterSet (clusterSet h0) (- 1)).
          0 \<le> c1 \<and> c1 < int (length (clusters (clusterSet (snd ((Fin MaxFloat64, None :: (int \<times> int) option), h0)))))"
  proof
    fix c1 assume "c1 \<in> set (EachCluster DistanceMapClusterSet (clusterSet h0) (- 1))"
    from distMap_EachCluster_mem[OF this]
    show "0 \<le> c1 \<and> c1 < int (length (clusters (clusterSet (snd ((Fin MaxFloat64, None :: (int \<times> int) option), h0)))))"
      by simp
  qed
  from outerSearch_safe[OF assms this] obtain s bp h1 where
    srch: "bestPairSearch DistanceMapClusterSet L h0 = Inr ((s, bp), h1)" and f: "sameFrame h0 h1"
    unfolding bestPairSearch_def by (metis prod.collapse snd_conv)
  have lw1: "length (lwCache h1) = 4" and cs1: "clusterSet h1 = clusterSet h0"
    using f lw0 by (simp_all add: sameFrame_def)
  show ?thesis
  proof (cases bp)
    case None
    then show ?thesis using srch by (auto simp: MergeNext_def h0_def)
  next
    case (Some pair)
    obtain c1 c2 where pair: "pair = (c1, c2)" by (cases pair)
    from bestPairSearch_result[OF srch] Some pair have
      mem: "c1 \<in> set (EachCluster DistanceMapClusterSet (clusterSet h0) (- 1))"
        "c2 \<in> set (EachCluster DistanceMapClusterSet (clusterSet h0) c1)"
      by auto
    have v: "0 \<le> c1" "c1 < c2" "c2 < int (length (clusters (clusterSet h1)))"
      using distMap_EachCluster_mem[OF mem(1)] distMap_EachCluster_mem[OF mem(2)] cs1 by simp_all
    from distMap_Merge_valid[OF v] obtain d1 where
      mg: "Merge DistanceMapClusterSet (clusterSet h1) c1 c2 = Inr (d1, c1, int (length (clusters (clusterSet h1))) - 1)"
      by blast
    have mu: "distCache h1 \<noteq> None \<Longrightarrow> \<exists>h2. mergeAndUpdateAll DistanceMapClusterSet L h1 c1 c2 = Inr h2"
      using mergeAndUpdateAll_safe[OF assms v] lw1 by blast
    show ?thesis
    proof (cases "distCache h1 = None")
      case True
      then show ?thesis using srch Some pair mg by (auto simp: MergeNext_def h0_def)
    next
      case False
      from mu[OF False] obtain h2 where "mergeAndUpdateAll DistanceMapClusterSet L h1 c1 c2 = Inr h2" by blast
      then show ?thesis using srch Some pair False by (auto simp: MergeNext_def h0_def)
    qed
  qed
qed

lemma Cluster_loop_safe:
  assumes "safeLinkage L ready"
  shows "Count DistanceMapClusterSet (clusterSet h) \<le> int n + 1 \<Longrightarrow>
   \<exists>h1. Cluster_loop n DistanceMapClusterSet chk L h = Some (Inr h1)"
proof (induction n arbitrary: h)
  case 0
  then show ?case by simp
next
  case (Suc n)
  from MergeNext_safe[OF assms, of chk h] obtain merged ha where
    m: "MergeNext DistanceMapClusterSet chk L h = Inr (merged, ha)" by (metis prod.collapse)
  show ?case
  proof (cases merged)
    case True
    have "Count DistanceMapClusterSet (clusterSet ha) \<le> int n + 1"
      using distMap_MergeNext_True[of chk L h ha] m True Suc.prems by simp
    from Suc.IH[OF this] show ?thesis using m True by simp
  next
    case False
    then show ?thesis using m by simp
  qed
qed

theorem builtin_linkages_never_panic:
  "(\<exists>h1. Cluster (nat (Count DistanceMapClusterSet d)) DistanceMapClusterSet d chk maxLinkage_methods c = Some (Inr h1))
   \<and> (\<exists>h1. Cluster (nat (Count DistanceMapClusterSet d)) DistanceMapClusterSet d chk' minLinkage_methods m = Some (Inr h1))
   \<and> (\<exists>h1. Cluster (nat (Count DistanceMapClusterSet d)) DistanceMapClusterSet d chk'' avgLinkage_methods a = Some (Inr h1))"
  using Cluster_loop_safe[OF safe_maxLinkage, of "newHClustering d c" "nat (Count DistanceMapClusterSet d)" chk]
    Cluster_loop_safe[OF safe_minLinkage, of "newHClustering d m" "nat (Count DistanceMapClusterSet d)" chk']
    Cluster_loop_safe[OF safe_avgLinkage, of "newHClustering d a" "nat (Count DistanceMapClusterSet d)" chk'']
  by (simp add: Cluster_def newHClustering_def distMap_Count)

subsection \<open>Runs in which the engine departs from its documentation\<close>

text \<open>
  C1 fails on the code. Complete linkage on three singletons \<open>a, b, c\<close> with
  \<open>d(a,b) = 0\<close>, \<open>d(a,c) = 0.5\<close>, \<open>d(b,c) = 0.25\<close>: the first \<^verbatim>\<open>MergeNext\<close> merges
  clusters 0 and 1, and \<^verbatim>\<open>Merge\<close> moves cluster \<open>{c}\<close> from index 2 into index 1.
  \<^verbatim>\<open>mergeAndUpdateAll\<close> moves the cached scores of index 2 to index 1, but its
  Lance-Williams loop then reads the snapshots \<^verbatim>\<open>diks[1]\<close> and \<^verbatim>\<open>djks[1]\<close>, taken before
  the merge for the old cluster 1, and overwrites the entry: \<^verbatim>\<open>dist(0, 1)\<close> returns 1.0
  from the cache, while the linkage score of \<open>{a, b}\<close> and \<open>{c}\<close> from the items is 0.5.
  With threshold 0.5 the run therefore stops at two clusters.
\<close>

theorem cached_dist_differs_after_relocation:
  "map_sum id (\<lambda>r. (fst r, clusters (clusterSet (snd r)),
                     map_sum id fst (dist_h DistanceMapClusterSet maxLinkage_methods (snd r) 0 1),
                     map_sum id fst (linkageScore DistanceMapClusterSet maxLinkage_methods
                                       (clusterSet (snd r)) (linkageType (snd r)) 0 1)))
     (MergeNext DistanceMapClusterSet (Threshold (Fin 1)) maxLinkage_methods (newHClustering abcSet CompleteLinkage))
   = Inr (True, [[''a'', ''b''], [''c'']], Inr (Fin 1), Inr (Fin (1 / 2)))
   \<and> map_option (map_sum id (\<lambda>h. clusters (clusterSet h)))
       (Cluster 3 DistanceMapClusterSet abcSet (Threshold (Fin (1 / 2))) maxLinkage_methods CompleteLinkage)
     = Some (Inr [[''a'', ''b''], [''c'']])"
  by (simp add: abcSet_def abcMap_def run_defs)

text \<open>
  C2 fails on the code. \<^verbatim>\<open>MergeNext\<close> reads \<^verbatim>\<open>LWParams\<close> once, on its first call,
  before any \<^verbatim>\<open>Put\<close>: the item sets of a fresh unweighted average linkage are nil, so
  \<open>ni = nj = 0\<close> and both coefficients are \<^verbatim>\<open>0.0 / 0.0\<close>. The four values are kept for the
  rest of the run. On the three singletons the first merge joins two clusters of one item
  each, for which the specification gives the coefficients 0.5 and 0.5; the engine uses NaN
  and NaN, and the updated score of the merged cluster to the other one is NaN.
\<close>

theorem average_linkage_params_not_from_counts:
  "map_sum id (\<lambda>r. (fst r, clusters (clusterSet (snd r)), lwCache (snd r),
                     cacheRead (distCache (snd r)) 0 1))
     (MergeNext DistanceMapClusterSet (MaxClusters 1) avgLinkage_methods (newHClustering abcSet AverageLinkage))
   = Inr (True, [[''a'', ''b''], [''c'']], [NaN, NaN, Fin 0, Fin 0], NaN)"
  by (simp add: abcSet_def abcMap_def run_defs)

text \<open>
  C3 fails on the code. A linkage type that scores as complete linkage does and whose
  \<^verbatim>\<open>LWParams\<close> returns an empty slice: \<^verbatim>\<open>MergeNext\<close> makes \<^verbatim>\<open>distCache\<close> all the same,
  so \<^verbatim>\<open>mergeAndUpdateAll\<close> runs and panics at \<^verbatim>\<open>h.lwCache[0]\<close>, on the first merge of the
  two-item set.
\<close>

theorem short_LWParams_panics:
  "Cluster 2 DistanceMapClusterSet abSet (Threshold (Fin 1)) noParamsLinkage CompleteLinkage
   = Some (Inl IndexOutOfRange)"
  by (simp add: abSet_def abMap_def noParamsLinkage_def run_defs)

text \<open>
  C5 fails on the code for unweighted average linkage. On the five items of the package
  documentation, with the checker \<^verbatim>\<open>MaxClusters(2)\<close>, the run stops with three clusters:
  after two merges every cached score is NaN (the coefficients of C2), no score is below
  \<^verbatim>\<open>math.MaxFloat64\<close>, and \<^verbatim>\<open>MergeNext\<close> finds no pair.
\<close>

theorem average_linkage_stops_at_three_clusters:
  "map_option (map_sum id (\<lambda>h. (Count DistanceMapClusterSet (clusterSet h), clusters (clusterSet h))))
     (Cluster 5 DistanceMapClusterSet docSet (MaxClusters 2) avgLinkage_methods AverageLinkage)
   = Some (Inr (3, [[''a'', ''b''], [''e'', ''d''], [''c'']]))"
  by (simp add: docSet_def docMap_def run_defs)

text \<open>The other three linkage types reach two clusters on the same input.\<close>

lemma other_linkages_reach_two_clusters:
  "map_option (map_sum id (\<lambda>h. Count DistanceMapClusterSet (clusterSet h)))
     (Cluster 5 DistanceMapClusterSet docSet (MaxClusters 2) maxLinkage_methods CompleteLinkage) = Some (Inr 2)"
  "map_option (map_sum id (\<lambda>h. Count DistanceMapClusterSet (clusterSet h)))
     (Cluster 5 DistanceMapClusterSet docSet (MaxClusters 2) minLinkage_methods SingleLinkage) = Some (Inr 2)"
  "map_option (map_sum id (\<lambda>h. Count DistanceMapClusterSet (clusterSet h)))
     (Cluster 5 DistanceMapClusterSet docSet (MaxClusters 2) avgLinkage_methods WeightedAverageLinkage) = Some (Inr 2)"
  by (simp_all add: docSet_def docMap_def run_defs)

end
